theory Spec2Isabelle
  imports Main "HOL-Library.Word" "HOL-Library.Sublist"
begin

section \<open>The job scheduler of abstruse (server/scheduler/scheduler.go)\<close>

text \<open>
  The scheduler is modelled sequentially: every method of \<open>scheduler\<close> is a function from
  a world to a world. The world holds the fields of the \<open>scheduler\<close> struct that the
  methods read and write (\<open>queued\<close>, \<open>pending\<close>, \<open>paused\<close>, the one-slot \<open>ready\<close>
  channel), the objects that the scheduler reaches through pointers (\<open>*core.Job\<close>,
  \<open>*core.Worker\<close>) as two stores indexed by reference, and the history of the calls made
  to the collaborators (stores, worker registry, workers, SCM client, websocket).

  A critical section of \<open>s.mu\<close> is one step of the model. A goroutine started with
  \<open>go\<close> is either returned to the caller as a request (\<open>process\<close>) or, for the
  broadcast of a job's status, run at the point where it is started. Calls of the logger
  are left out.
\<close>

subsection \<open>Data\<close>

type_synonym time = nat
  \<comment> \<open>\<open>time.Time\<close>: only \<open>Before\<close> and \<open>After\<close> are used, both strict.\<close>

type_synonym goint = "64 word"
  \<comment> \<open>Go's \<open>int\<close> on a 64-bit platform: arithmetic wraps, comparison is signed.\<close>

type_synonym ref = nat
  \<comment> \<open>the address of a \<open>core.Job\<close> or of a \<open>core.Worker\<close>\<close>

datatype err =
    JobNotFound        \<comment> \<open>\<open>fmt.Errorf("job not found")\<close>\<close>
  | WorkerNotFound     \<comment> \<open>\<open>fmt.Errorf("worker not found")\<close>\<close>
  | NoJobsQueued       \<comment> \<open>\<open>fmt.Errorf("no jobs queued")\<close>\<close>
  | JobNotRunning      \<comment> \<open>\<open>fmt.Errorf("job not running")\<close>\<close>
  | External string    \<comment> \<open>an error returned by a collaborator\<close>

text \<open>
  Modelled from the spec: \<open>core.Provider\<close> is declared outside the sources at hand. The record
  holds the fields that \<open>scheduler.go\<close> reads from it: the provider's name, URL, access token
  and host.
\<close>

record provider =
  prov_Name :: string
  prov_URL :: string
  prov_AccessToken :: string
  prov_Host :: string

text \<open>\<open>core.Repository\<close> (server/core/repo.go): the fields that the scheduler reads.\<close>

record repository =
  repo_URL :: string
  repo_FullName :: string
  repo_Provider :: provider

text \<open>
  Modelled from the spec: \<open>core.Job\<close> and \<open>core.Build\<close> are declared outside the sources at
  hand. The records hold the attributes of the spec's data model that \<open>scheduler.go\<close> reads
  and writes: for a job its id, build id, commands, image, environment, status, log and the
  optional start and end times; for a build its id, commit, ref, optional start and end
  times, child jobs and repository. \<open>job_build\<close> is \<open>job.Build\<close>, the build as a job carries
  it. Ids are Go's \<open>uint\<close>, compared and copied only.
\<close>

record job_build =
  jb_Ref :: string
  jb_Commit :: string
  jb_Repository :: repository

record job =
  job_ID :: nat
  job_BuildID :: nat
  job_Commands :: string
  job_Image :: string
  job_Env :: string
  job_Status :: string
  job_Log :: string
  job_StartTime :: "time option"
  job_EndTime :: "time option"
  job_Build :: job_build

record build =
  build_ID :: nat
  build_Commit :: string
  build_Ref :: string
  build_StartTime :: "time option"
  build_EndTime :: "time option"
  build_Jobs :: "job list"
  build_Repository :: repository

text \<open>
  Modelled from the spec: \<open>core.Worker\<close> is declared outside the sources at hand. The spec gives
  it \<open>ID:string\<close>, \<open>Max:int\<close> and \<open>Running:int\<close> under its own lock; \<open>findWorker\<close> compares
  \<open>Max - Running\<close> with a variable of type \<open>int\<close>.
\<close>

record worker =
  worker_ID :: string
  worker_Max :: goint
  worker_Running :: goint

datatype pb_action = Job_JobStart | Job_JobStop

text \<open>
  Modelled from the spec: \<open>pb.Job\<close>, the descriptor sent to a worker and returned by it, is
  generated code outside the sources at hand. The fields are those that \<open>startJob\<close> sets,
  and the status and the log chunks that the worker returns.
\<close>

record pb_job =
  pb_Id :: nat
  pb_BuildId :: nat
  pb_Commands :: string
  pb_Image :: string
  pb_Env :: string
  pb_Url :: string
  pb_ProviderName :: string
  pb_ProviderURL :: string
  pb_ProviderToken :: string
  pb_Ref :: string
  pb_CommitSHA :: string
  pb_RepoName :: string
  pb_Action :: pb_action
  pb_WorkerId :: string
  pb_Status :: string
  pb_Log :: "string list"

datatype scm_state = StateSuccess | StateError

text \<open>The payload of a broadcast: the keys \<open>startTime\<close> and \<open>endTime\<close> are optional.\<close>

record ws_event =
  ev_buildID :: nat
  ev_jobID :: nat
  ev_status :: string
  ev_startTime :: "time option"
  ev_endTime :: "time option"

text \<open>A call to a collaborator, or an operation on a worker's guard and counter.\<close>

datatype event =
    WorkersList
  | JobStoreUpdate job "err option"   \<comment> \<open>with the store's answer, which the scheduler only logs\<close>
  | BuildStoreFind nat
  | BuildStoreUpdate build
  | GitscmNew string string string
  | ScmCreateStatus string string string scm_state
  | WsBroadcast string ws_event
  | WorkerLock ref
  | WorkerUnlock ref
  | WorkerRunningInc ref
  | WorkerRunningDec ref
  | WorkerStartJob ref worker pb_job   \<comment> \<open>with the fields of the worker at the call\<close>
  | WorkerStopJob ref pb_job

text \<open>
  Modelled from the spec: the collaborators (\<open>core.WorkerRegistry\<close>, \<open>core.JobStore\<close>,
  \<open>core.BuildStore\<close>, the methods \<open>StartJob\<close> and \<open>StopJob\<close> of a worker, \<open>gitscm\<close> and
  \<open>lib.TimeNow\<close>) are outside the sources at hand; the record holds what they answer, with
  the signatures of the spec's external interfaces. Each answer may depend on the whole
  history of calls, so that a store can fail once and succeed at the next call. \<open>StartJob\<close>
  is a method of the worker: it is given the fields of its receiver, and so it sees the
  counter \<open>Running\<close> as it is when the call is made.
\<close>

record env =
  workers_List :: "event list \<Rightarrow> err + ref list"
  jobStore_Update :: "event list \<Rightarrow> job \<Rightarrow> err option"
  buildStore_Find :: "event list \<Rightarrow> nat \<Rightarrow> err + build"
  buildStore_Update :: "event list \<Rightarrow> build \<Rightarrow> err option"
  gitscm_New :: "event list \<Rightarrow> string \<Rightarrow> string \<Rightarrow> string \<Rightarrow> err option"
  scm_CreateStatus :: "event list \<Rightarrow> string \<Rightarrow> string \<Rightarrow> string \<Rightarrow> scm_state \<Rightarrow> err option"
  worker_StartJob :: "event list \<Rightarrow> ref \<Rightarrow> worker \<Rightarrow> pb_job \<Rightarrow> pb_job option \<times> err option"
  worker_StopJob :: "event list \<Rightarrow> ref \<Rightarrow> pb_job \<Rightarrow> bool \<times> err option"
  lib_TimeNow :: "event list \<Rightarrow> time"

record world =
  queued :: "ref list"
  pending :: "nat \<rightharpoonup> ref \<times> pb_job"
  paused :: bool
  ready :: bool
  jobs :: "ref \<Rightarrow> job"
  workers :: "ref \<Rightarrow> worker"
  trace :: "event list"

definition emit :: "event list \<Rightarrow> world \<Rightarrow> world" where
  "emit evs w = w\<lparr>trace := trace w @ evs\<rparr>"

subsection \<open>The admission queue\<close>

text \<open>\<open>enqueueJob\<close> pops the head of the queue.\<close>

definition enqueueJob :: "world \<Rightarrow> (err + ref) \<times> world" where
  "enqueueJob w =
     (case queued w of
        [] \<Rightarrow> (Inl NoJobsQueued, w)
      | r # rest \<Rightarrow> (Inr r, w\<lparr>queued := rest\<rparr>))"

fun find_in :: "(ref \<Rightarrow> job) \<Rightarrow> nat \<Rightarrow> ref list \<Rightarrow> ref option" where
  "find_in h i [] = None"
| "find_in h i (r # rs) = (if job_ID (h r) = i then Some r else find_in h i rs)"

definition findJob :: "nat \<Rightarrow> world \<Rightarrow> err + ref" where
  "findJob i w = (case find_in (jobs w) i (queued w) of None \<Rightarrow> Inl JobNotFound | Some r \<Rightarrow> Inr r)"

text \<open>\<open>removeJob\<close> cuts out the first entry with the id and stops.\<close>

fun remove_in :: "(ref \<Rightarrow> job) \<Rightarrow> nat \<Rightarrow> ref list \<Rightarrow> ref list" where
  "remove_in h i [] = []"
| "remove_in h i (r # rs) = (if job_ID (h r) = i then rs else r # remove_in h i rs)"

definition removeJob :: "nat \<Rightarrow> world \<Rightarrow> world" where
  "removeJob i w = w\<lparr>queued := remove_in (jobs w) i (queued w)\<rparr>"

text \<open>\<open>next\<close> deposits a token in the \<open>ready\<close> channel unless one is there.\<close>

definition next_signal :: "world \<Rightarrow> world" where
  "next_signal w = (if ready w then w else w\<lparr>ready := True\<rparr>)"

subsection \<open>Workers\<close>

text \<open>
  The loop of \<open>findWorker\<close>: \<open>worker\<close> and \<open>c\<close> are the loop's variables; every worker is
  read between \<open>Lock\<close> and \<open>Unlock\<close>.
\<close>

fun pick_worker :: "(ref \<Rightarrow> worker) \<Rightarrow> ref list \<Rightarrow> ref option \<times> goint \<Rightarrow> ref option \<times> goint" where
  "pick_worker h [] acc = acc"
| "pick_worker h (x # xs) (best, c) =
     (let diff = worker_Max (h x) - worker_Running (h x)
      in if c <s diff then pick_worker h xs (Some x, diff) else pick_worker h xs (best, c))"

definition guard_events :: "ref list \<Rightarrow> event list" where
  "guard_events xs = concat (map (\<lambda>x. [WorkerLock x, WorkerUnlock x]) xs)"

definition findWorker :: "env \<Rightarrow> world \<Rightarrow> (err + ref option) \<times> world" where
  "findWorker e w =
     (let w1 = emit [WorkersList] w in
      case workers_List e (trace w) of
        Inl er \<Rightarrow> (Inl er, w1)
      | Inr ws \<Rightarrow> (Inr (fst (pick_worker (workers w1) ws (None, 0))), emit (guard_events ws) w1))"

fun find_worker_id :: "(ref \<Rightarrow> worker) \<Rightarrow> string \<Rightarrow> ref list \<Rightarrow> ref option" where
  "find_worker_id h i [] = None"
| "find_worker_id h i (x # xs) = (if worker_ID (h x) = i then Some x else find_worker_id h i xs)"

definition getWorker :: "env \<Rightarrow> string \<Rightarrow> world \<Rightarrow> (err + ref) \<times> world" where
  "getWorker e i w =
     (let w1 = emit [WorkersList] w in
      case workers_List e (trace w) of
        Inl er \<Rightarrow> (Inl er, w1)
      | Inr ws \<Rightarrow>
          (case find_worker_id (workers w1) i ws of
             None \<Rightarrow> (Inl WorkerNotFound, w1)
           | Some x \<Rightarrow> (Inr x, w1)))"

subsection \<open>Reporting and build aggregation\<close>

text \<open>The \<open>%d\<close> of \<open>fmt.Sprintf\<close>.\<close>

fun decimal :: "nat \<Rightarrow> string" where
  "decimal n = (if n < 10 then [char_of (48 + n)] else decimal (n div 10) @ [char_of (48 + n mod 10)])"

declare decimal.simps [simp del]

definition sendStatus :: "env \<Rightarrow> build \<Rightarrow> scm_state \<Rightarrow> world \<Rightarrow> err option \<times> world" where
  "sendStatus e b st w =
     (let p = repo_Provider (build_Repository b);
          w1 = emit [GitscmNew (prov_Name p) (prov_URL p) (prov_AccessToken p)] w
      in case gitscm_New e (trace w) (prov_Name p) (prov_URL p) (prov_AccessToken p) of
           Some er \<Rightarrow> (Some er, w1)
         | None \<Rightarrow>
             (let name = repo_FullName (build_Repository b);
                  url = prov_Host p @ ''/builds/'' @ decimal (build_ID b)
              in (scm_CreateStatus e (trace w1) name (build_Commit b) url st,
                  emit [ScmCreateStatus name (build_Commit b) url st] w1)))"

text \<open>
  The first loop of \<open>updateBuildTime\<close>, with its variables \<open>alldone\<close>, \<open>startTime\<close> and
  \<open>endTime\<close>. A job without end time leaves the loop by \<open>break\<close>, before its start time
  is looked at.
\<close>

fun walk_jobs :: "job list \<Rightarrow> bool \<times> time option \<times> time option \<Rightarrow> bool \<times> time option \<times> time option" where
  "walk_jobs [] acc = acc"
| "walk_jobs (j # js) (alldone, startTime, endTime) =
     (case job_EndTime j of
        None \<Rightarrow> (False, startTime, endTime)
      | Some en \<Rightarrow>
          (let endTime' = (case endTime of
                             None \<Rightarrow> Some en
                           | Some m \<Rightarrow> if m < en then Some en else Some m);
               startTime' = (case startTime of
                               None \<Rightarrow> job_StartTime j
                             | Some m \<Rightarrow>
                                 (case job_StartTime j of
                                    None \<Rightarrow> Some m
                                  | Some s \<Rightarrow> if s < m then Some s else Some m))
           in walk_jobs js (alldone, startTime', endTime')))"

text \<open>The second loop: \<open>success\<close> is false from the first job that is not \<open>passing\<close>.\<close>

fun all_passing :: "job list \<Rightarrow> bool" where
  "all_passing [] = True"
| "all_passing (j # js) = (if job_Status j \<noteq> ''passing'' then False else all_passing js)"

definition overall_state :: "job list \<Rightarrow> scm_state" where
  "overall_state js = (if all_passing js then StateSuccess else StateError)"

definition updateBuildTime :: "env \<Rightarrow> nat \<Rightarrow> world \<Rightarrow> err option \<times> world" where
  "updateBuildTime e i w =
     (let w1 = emit [BuildStoreFind i] w in
      case buildStore_Find e (trace w) i of
        Inl er \<Rightarrow> (Some er, w1)
      | Inr b \<Rightarrow>
          if build_StartTime b \<noteq> None \<and> build_EndTime b \<noteq> None then (None, w1)
          else
            (case walk_jobs (build_Jobs b) (True, None, None) of
               (alldone, startTime, endTime) \<Rightarrow>
                 (let b1 = (if startTime \<noteq> None then b\<lparr>build_StartTime := startTime\<rparr> else b);
                      r1 = (if startTime \<noteq> None then buildStore_Update e (trace w1) b1 else None);
                      w2 = (if startTime \<noteq> None then emit [BuildStoreUpdate b1] w1 else w1)
                  in if r1 \<noteq> None then (r1, w2)
                     else if alldone \<and> endTime \<noteq> None then
                       (let b2 = b1\<lparr>build_EndTime := endTime\<rparr>;
                            r2 = buildStore_Update e (trace w2) b2;
                            w3 = emit [BuildStoreUpdate b2] w2
                        in if r2 \<noteq> None then (r2, w3)
                           else sendStatus e b2 (overall_state (build_Jobs b2)) w3)
                     else (None, w2))))"

definition broadcastJobStatus :: "job \<Rightarrow> event" where
  "broadcastJobStatus j =
     WsBroadcast ''/subs/jobs''
       \<lparr>ev_buildID = job_BuildID j, ev_jobID = job_ID j, ev_status = job_Status j,
        ev_startTime = job_StartTime j, ev_endTime = job_EndTime j\<rparr>"

text \<open>
  \<open>saveJob\<close> logs the error of the job store and returns the error of the aggregation.
\<close>

definition saveJob :: "env \<Rightarrow> ref \<Rightarrow> world \<Rightarrow> err option \<times> world" where
  "saveJob e r w =
     (let j = jobs w r;
          w1 = emit [JobStoreUpdate j (jobStore_Update e (trace w) j)] w;
          w2 = emit [broadcastJobStatus j] w1
      in updateBuildTime e (job_BuildID j) w2)"

subsection \<open>The control API\<close>

definition mark_failing :: "env \<Rightarrow> ref \<Rightarrow> world \<Rightarrow> world" where
  \<comment> \<open>\<open>job.Status = "failing"; job.EndTime = lib.TimeNow()\<close>\<close>
  "mark_failing e r w =
     w\<lparr>jobs := (jobs w)(r := (jobs w r)\<lparr>job_Status := ''failing'',
                                         job_EndTime := Some (lib_TimeNow e (trace w))\<rparr>)\<rparr>"

text \<open>
  A call returns a value or panics. In the queued branch of \<open>Stop\<close> the error of \<open>saveJob\<close>
  is declared in the \<open>if\<close> statement of line 89 and is out of scope on line 92, where
  \<open>err.Error()\<close> is therefore taken of the error of \<open>findJob\<close>, which is nil in this branch:
  when \<open>saveJob\<close> fails, the argument of the logger panics with a nil dereference and
  \<open>return false, nil\<close> is not reached.
\<close>

datatype 'a call = Returns 'a | Panics

definition Stop :: "env \<Rightarrow> nat \<Rightarrow> world \<Rightarrow> (bool \<times> err option) call \<times> world" where
  "Stop e i w =
     (case findJob i w of
        Inr r \<Rightarrow>
          (let w1 = removeJob i w;
               w2 = mark_failing e r w1
           in case saveJob e r w2 of
                (None, w3) \<Rightarrow> (Returns (True, None), w3)
              | (Some er, w3) \<Rightarrow> (Panics, w3))
      | Inl nf \<Rightarrow>
          (case pending w i of
             Some (r, pb) \<Rightarrow>
               (case getWorker e (pb_WorkerId pb) w of
                  (Inl er, w1) \<Rightarrow>
                    (let w2 = mark_failing e r w1
                     in (Returns (False, Some er), snd (saveJob e r w2)))
                | (Inr wr, w1) \<Rightarrow>
                    (let (stopped, er) = worker_StopJob e (trace w1) wr pb;
                         w2 = emit [WorkerStopJob wr pb] w1;
                         w3 = (if er \<noteq> None
                               then w2\<lparr>pending := (pending w2)(job_ID (jobs w2 r) := None)\<rparr>
                               else w2);
                         w4 = mark_failing e r w3
                     in (Returns (stopped, None), snd (saveJob e r w4))))
           | None \<Rightarrow> (Returns (False, None), w)))"

text \<open>\<open>Next\<close> calls \<open>Stop\<close> first; when \<open>Stop\<close> panics, \<open>Next\<close> ends there.\<close>

definition Next :: "env \<Rightarrow> ref \<Rightarrow> world \<Rightarrow> err option call \<times> world" where
  "Next e r w =
     (case Stop e (job_ID (jobs w r)) w of
        (Panics, w1) \<Rightarrow> (Panics, w1)
      | (Returns res, w1) \<Rightarrow>
          (let w2 = w1\<lparr>queued := queued w1 @ [r]\<rparr>;
               w3 = w2\<lparr>jobs := (jobs w2)(r := (jobs w2 r)\<lparr>job_Status := ''queued'',
                                                          job_StartTime := None,
                                                          job_EndTime := None\<rparr>)\<rparr>;
               w4 = snd (saveJob e r w3)
           in (Returns None, next_signal w4)))"

definition Pause :: "world \<Rightarrow> err option \<times> world" where
  "Pause w = (None, w\<lparr>paused := True\<rparr>)"

definition Resume :: "world \<Rightarrow> err option \<times> world" where
  "Resume w = (None, next_signal (w\<lparr>paused := False\<rparr>))"

definition JobLog :: "nat \<Rightarrow> world \<Rightarrow> err + string" where
  "JobLog i w = (case pending w i of Some (r, pb) \<Rightarrow> Inr (concat (pb_Log pb)) | None \<Rightarrow> Inl JobNotRunning)"

subsection \<open>Dispatch\<close>

text \<open>
  \<open>process\<close> returns, next to its error, the pair \<open>(job, worker)\<close> for which it starts the
  goroutine \<open>startJob\<close>.
\<close>

definition process :: "env \<Rightarrow> world \<Rightarrow> (err option \<times> (ref \<times> ref) option) \<times> world" where
  "process e w =
     (case findWorker e w of
        (Inl er, w1) \<Rightarrow> ((Some er, None), w1)
      | (Inr None, w1) \<Rightarrow> ((None, None), w1)
      | (Inr (Some wr), w1) \<Rightarrow>
          (case enqueueJob w1 of
             (Inl er, w2) \<Rightarrow> ((None, None), w2)
           | (Inr r, w2) \<Rightarrow> ((None, Some (r, wr)), w2)))"

text \<open>The branch \<open>case <-s.ready\<close> of the loop in \<open>run\<close>: take the token, call \<open>process\<close>.\<close>

definition run_ready :: "env \<Rightarrow> world \<Rightarrow> (err option \<times> (ref \<times> ref) option) \<times> world" where
  "run_ready e w = process e (w\<lparr>ready := False\<rparr>)"

subsection \<open>The lifecycle of a job\<close>

definition worker_incr :: "ref \<Rightarrow> world \<Rightarrow> world" where
  \<comment> \<open>\<open>worker.Lock(); worker.Running++; worker.Unlock()\<close>\<close>
  "worker_incr x w =
     emit [WorkerLock x, WorkerRunningInc x, WorkerUnlock x]
       (w\<lparr>workers := (workers w)(x := (workers w x)\<lparr>worker_Running := worker_Running (workers w x) + 1\<rparr>)\<rparr>)"

definition worker_decr :: "ref \<Rightarrow> world \<Rightarrow> world" where
  \<comment> \<open>the deferred \<open>worker.Lock(); worker.Running--; worker.Unlock()\<close>\<close>
  "worker_decr x w =
     emit [WorkerLock x, WorkerRunningDec x, WorkerUnlock x]
       (w\<lparr>workers := (workers w)(x := (workers w x)\<lparr>worker_Running := worker_Running (workers w x) - 1\<rparr>)\<rparr>)"

definition descriptor :: "job \<Rightarrow> string \<Rightarrow> pb_job" where
  "descriptor j wid =
     \<lparr>pb_Id = job_ID j, pb_BuildId = job_BuildID j, pb_Commands = job_Commands j,
      pb_Image = job_Image j, pb_Env = job_Env j,
      pb_Url = repo_URL (jb_Repository (job_Build j)),
      pb_ProviderName = prov_Name (repo_Provider (jb_Repository (job_Build j))),
      pb_ProviderURL = prov_URL (repo_Provider (jb_Repository (job_Build j))),
      pb_ProviderToken = prov_AccessToken (repo_Provider (jb_Repository (job_Build j))),
      pb_Ref = jb_Ref (job_Build j), pb_CommitSHA = jb_Commit (job_Build j),
      pb_RepoName = repo_FullName (jb_Repository (job_Build j)),
      pb_Action = Job_JobStart, pb_WorkerId = wid, pb_Status = [], pb_Log = []\<rparr>"

text \<open>
  Modelled from the spec: the generated getters of \<open>pb.Job\<close> accept the nil pointer, so that
  a missing descriptor has the empty status and no log.
\<close>

definition GetStatus :: "pb_job option \<Rightarrow> string" where
  "GetStatus j = (case j of None \<Rightarrow> [] | Some d \<Rightarrow> pb_Status d)"

definition GetLog :: "pb_job option \<Rightarrow> string list" where
  "GetLog j = (case j of None \<Rightarrow> [] | Some d \<Rightarrow> pb_Log d)"

text \<open>
  \<open>log[len(log)-65536:]\<close>: Go panics on a slice expression with a negative bound.
\<close>

definition log_tail :: "string \<Rightarrow> string option" where
  "log_tail log = (if length log < 65536 then None else Some (drop (length log - 65536) log))"

datatype outcome = Returned | Panicked

text \<open>
  \<open>startJob\<close>: the deferred decrement runs when the function returns and when it panics.
\<close>

definition startJob :: "env \<Rightarrow> ref \<Rightarrow> ref \<Rightarrow> world \<Rightarrow> outcome \<times> world" where
  "startJob e r x w =
     (let w1 = worker_incr x w;
          w2 = removeJob (job_ID (jobs w1 r)) w1;
          w3 = w2\<lparr>jobs := (jobs w2)(r := (jobs w2 r)\<lparr>job_Status := ''running'', job_Log := [],
                      job_StartTime := Some (lib_TimeNow e (trace w2)), job_EndTime := None\<rparr>)\<rparr>;
          w4 = snd (saveJob e r w3);
          j = descriptor (jobs w4 r) (worker_ID (workers w4 x));
          w5 = w4\<lparr>pending := (pending w4)(job_ID (jobs w4 r) \<mapsto> (r, j))\<rparr>;
          (j', er) = worker_StartJob e (trace w5) x (workers w5 x) j;
          w6 = emit [WorkerStartJob x (workers w5 x) j] w5;
          w7 = w6\<lparr>jobs := (jobs w6)(r := (jobs w6 r)\<lparr>job_Status := GetStatus j',
                      job_Log := concat (GetLog j'),
                      job_EndTime := Some (lib_TimeNow e (trace w6))\<rparr>)\<rparr>
      in case saveJob e r w7 of
           (None, w8) \<Rightarrow>
             (Returned,
              worker_decr x (next_signal (w8\<lparr>pending := (pending w8)(job_ID (jobs w8 r) := None)\<rparr>)))
         | (Some er1, w8) \<Rightarrow>
             (case log_tail (concat (GetLog j')) of
                None \<Rightarrow> (Panicked, worker_decr x w8)
              | Some t \<Rightarrow>
                  (let w9 = w8\<lparr>jobs := (jobs w8)(r := (jobs w8 r)\<lparr>job_Log := t\<rparr>)\<rparr>;
                       w10 = snd (saveJob e r w9)
                   in (Returned,
                       worker_decr x
                         (next_signal (w10\<lparr>pending := (pending w10)(job_ID (jobs w10 r) := None)\<rparr>))))))"

subsection \<open>Vocabulary of the properties\<close>

text \<open>The events on a worker: its guard, its counter and the two remote calls.\<close>

fun worker_event :: "event \<Rightarrow> bool" where
  "worker_event (WorkerLock x) = True"
| "worker_event (WorkerUnlock x) = True"
| "worker_event (WorkerRunningInc x) = True"
| "worker_event (WorkerRunningDec x) = True"
| "worker_event (WorkerStartJob x k j) = True"
| "worker_event (WorkerStopJob x j) = True"
| "worker_event ev = False"

definition wtrace :: "world \<Rightarrow> event list" where
  "wtrace w = filter worker_event (trace w)"

text \<open>The ids of the jobs in the admission queue, in order.\<close>

definition queued_ids :: "world \<Rightarrow> nat list" where
  "queued_ids w = map (\<lambda>r. job_ID (jobs w r)) (queued w)"

text \<open>
  The free capacity of a worker as \<open>findWorker\<close> computes it: \<open>w.Max - w.Running\<close> in
  Go's \<open>int\<close>, read as a signed number.
\<close>

definition free_capacity :: "world \<Rightarrow> ref \<Rightarrow> int" where
  "free_capacity w x = sint (worker_Max (workers w x) - worker_Running (workers w x))"

text \<open>\<open>m\<close> is the greatest end time, respectively the least start time, of the jobs.\<close>

definition max_end_of :: "job list \<Rightarrow> time \<Rightarrow> bool" where
  "max_end_of js m \<longleftrightarrow>
     (\<exists>j\<in>set js. job_EndTime j = Some m) \<and> (\<forall>j\<in>set js. \<forall>t. job_EndTime j = Some t \<longrightarrow> t \<le> m)"

definition min_start_of :: "job list \<Rightarrow> time \<Rightarrow> bool" where
  "min_start_of js m \<longleftrightarrow>
     (\<exists>j\<in>set js. job_StartTime j = Some m) \<and> (\<forall>j\<in>set js. \<forall>t. job_StartTime j = Some t \<longrightarrow> m \<le> t)"

text \<open>
  The world in \<open>Stop\<close> after the call of \<open>StopJob\<close> on the resolved worker \<open>x\<close>, before
  the job is marked.
\<close>

definition after_StopJob :: "env \<Rightarrow> ref \<Rightarrow> ref \<Rightarrow> pb_job \<Rightarrow> world \<Rightarrow> world" where
  "after_StopJob e r x pb w =
     (let w1 = emit [WorkersList, WorkerStopJob x pb] w
      in if snd (worker_StopJob e (trace w @ [WorkersList]) x pb) \<noteq> None
         then w1\<lparr>pending := (pending w1)(job_ID (jobs w1 r) := None)\<rparr> else w1)"

subsection \<open>Example worlds\<close>

text \<open>
  A registry with two workers, \<open>w0\<close> without and \<open>w1\<close> with free capacity; collaborators
  that succeed; a clock that counts the calls made so far.
\<close>

definition example_repo :: repository where
  "example_repo = \<lparr>repo_URL = ''https://git.example/acme/app'', repo_FullName = ''acme/app'',
     repo_Provider = \<lparr>prov_Name = ''gitea'', prov_URL = ''https://git.example'',
                      prov_AccessToken = ''secret'', prov_Host = ''https://ci.example''\<rparr>\<rparr>"

definition example_job :: "nat \<Rightarrow> string \<Rightarrow> time option \<Rightarrow> time option \<Rightarrow> job" where
  "example_job i st s t =
     \<lparr>job_ID = i, job_BuildID = 7, job_Commands = ''make test'', job_Image = ''ubuntu'',
      job_Env = [], job_Status = st, job_Log = [], job_StartTime = s, job_EndTime = t,
      job_Build = \<lparr>jb_Ref = ''refs/heads/main'', jb_Commit = ''c0ffee'', jb_Repository = example_repo\<rparr>\<rparr>"

definition example_build :: "time option \<Rightarrow> time option \<Rightarrow> job list \<Rightarrow> build" where
  "example_build s t js =
     \<lparr>build_ID = 7, build_Commit = ''c0ffee'', build_Ref = ''refs/heads/main'',
      build_StartTime = s, build_EndTime = t, build_Jobs = js, build_Repository = example_repo\<rparr>"

definition env0 :: env where
  "env0 =
     \<lparr>workers_List = (\<lambda>h. Inr [0, 1]),
      jobStore_Update = (\<lambda>h j. None),
      buildStore_Find = (\<lambda>h i. Inr (example_build None None [])),
      buildStore_Update = (\<lambda>h b. None),
      gitscm_New = (\<lambda>h n u t. None),
      scm_CreateStatus = (\<lambda>h r c u s. None),
      worker_StartJob = (\<lambda>h x k j. (Some (j\<lparr>pb_Status := ''passing'', pb_Log := [''ok'']\<rparr>), None)),
      worker_StopJob = (\<lambda>h x j. (True, None)),
      lib_TimeNow = length\<rparr>"

definition world0 :: world where
  "world0 =
     \<lparr>queued = [], pending = Map.empty, paused = False, ready = False,
      jobs = (\<lambda>r. example_job (r + 5) ''queued'' None None),
      workers = (\<lambda>x. if x = 0 then \<lparr>worker_ID = ''w0'', worker_Max = 1, worker_Running = 1\<rparr>
                     else \<lparr>worker_ID = ''w1'', worker_Max = 2, worker_Running = 0\<rparr>),
      trace = []\<rparr>"

definition world_queued :: world where
  "world_queued = world0\<lparr>queued := [0]\<rparr>"

definition world_pending :: world where
  "world_pending =
     world0\<lparr>jobs := (jobs world0)(2 := example_job 7 ''running'' (Some 3) None),
            pending := [7 \<mapsto> (2, descriptor (example_job 7 ''running'' (Some 3) None) ''w1'')]\<rparr>"

definition env_db_down :: env where
  "env_db_down = env0\<lparr>buildStore_Find := (\<lambda>h i. Inl (External ''database is down''))\<rparr>"

definition env_stop_fails :: env where
  "env_stop_fails = env0\<lparr>worker_StopJob := (\<lambda>h x j. (False, Some (External ''worker unreachable'')))\<rparr>"

definition env_no_workers :: env where
  "env_no_workers = env0\<lparr>workers_List := (\<lambda>h. Inr [])\<rparr>"

definition example_pb :: pb_job where
  "example_pb = descriptor (example_job 7 ''running'' (Some 3) None) ''w1''"

definition env_all_ended :: env where
  "env_all_ended = env0\<lparr>buildStore_Find := (\<lambda>h i. Inr (example_build None None
      [example_job 5 ''passing'' (Some 2) (Some 9), example_job 6 ''failing'' (Some 1) (Some 12)]))\<rparr>"

definition env_finished :: env where
  "env_finished = env0\<lparr>buildStore_Find := (\<lambda>h i. Inr (example_build (Some 1) (Some 12)
      [example_job 5 ''passing'' (Some 2) (Some 9), example_job 6 ''failing'' (Some 1) (Some 12)]))\<rparr>"

definition env_running :: env where
  "env_running = env0\<lparr>buildStore_Find := (\<lambda>h i. Inr (example_build None None
      [example_job 5 ''running'' (Some 3) None]))\<rparr>"

definition env_one_running :: env where
  "env_one_running = env0\<lparr>buildStore_Find := (\<lambda>h i. Inr (example_build None None
      [example_job 5 ''passing'' (Some 5) (Some 10), example_job 6 ''running'' (Some 3) None]))\<rparr>"

definition world_paused :: world where
  "world_paused = snd (Next env0 0 (snd (Pause world0)))"

definition world_woken :: world where
  "world_woken = snd (run_ready env0 world_paused)"

section \<open>Lemmas\<close>

subsection \<open>What a persist changes\<close>

text \<open>
  \<open>sendStatus\<close>, \<open>updateBuildTime\<close> and \<open>saveJob\<close> extend the history and leave the rest of
  the world alone; none of them touches a worker.
\<close>

lemma emit_simps [simp]:
  "queued (emit evs w) = queued w" "pending (emit evs w) = pending w"
  "paused (emit evs w) = paused w" "ready (emit evs w) = ready w"
  "jobs (emit evs w) = jobs w" "workers (emit evs w) = workers w"
  "trace (emit evs w) = trace w @ evs"
  by (simp_all add: emit_def)

lemma emit_emit [simp]: "emit evs (emit evs' w) = emit (evs' @ evs) w"
  by (simp add: emit_def)

lemma wtrace_emit [simp]: "wtrace (emit evs w) = wtrace w @ filter worker_event evs"
  by (simp add: wtrace_def)

lemma sendStatus_frame [simp]:
  "queued (snd (sendStatus e b st w)) = queued w"
  "pending (snd (sendStatus e b st w)) = pending w"
  "paused (snd (sendStatus e b st w)) = paused w"
  "ready (snd (sendStatus e b st w)) = ready w"
  "jobs (snd (sendStatus e b st w)) = jobs w"
  "workers (snd (sendStatus e b st w)) = workers w"
  "wtrace (snd (sendStatus e b st w)) = wtrace w"
  by (simp_all add: sendStatus_def wtrace_def Let_def split: option.splits)

lemma sendStatus_prefix: "prefix (trace w) (trace (snd (sendStatus e b st w)))"
  by (simp add: sendStatus_def Let_def split: option.splits)

lemma updateBuildTime_frame [simp]:
  "queued (snd (updateBuildTime e i w)) = queued w"
  "pending (snd (updateBuildTime e i w)) = pending w"
  "paused (snd (updateBuildTime e i w)) = paused w"
  "ready (snd (updateBuildTime e i w)) = ready w"
  "jobs (snd (updateBuildTime e i w)) = jobs w"
  "workers (snd (updateBuildTime e i w)) = workers w"
  "wtrace (snd (updateBuildTime e i w)) = wtrace w"
  by (simp_all add: updateBuildTime_def Let_def split: sum.splits prod.splits)

lemma updateBuildTime_prefix: "prefix (trace w) (trace (snd (updateBuildTime e i w)))"
  using sendStatus_prefix prefix_order.trans
  by (auto simp: updateBuildTime_def Let_def split: sum.splits prod.splits intro: prefix_order.trans[OF _ sendStatus_prefix])

lemma saveJob_frame [simp]:
  "queued (snd (saveJob e r w)) = queued w"
  "pending (snd (saveJob e r w)) = pending w"
  "paused (snd (saveJob e r w)) = paused w"
  "ready (snd (saveJob e r w)) = ready w"
  "jobs (snd (saveJob e r w)) = jobs w"
  "workers (snd (saveJob e r w)) = workers w"
  "wtrace (snd (saveJob e r w)) = wtrace w"
  by (simp_all add: saveJob_def Let_def broadcastJobStatus_def)



lemma saveJob_first:
  "\<exists>evs. trace (snd (saveJob e r w)) =
     trace w @ JobStoreUpdate (jobs w r) (jobStore_Update e (trace w) (jobs w r)) # evs"
proof -
  have "prefix (trace w @ [JobStoreUpdate (jobs w r) (jobStore_Update e (trace w) (jobs w r)), broadcastJobStatus (jobs w r)])
      (trace (snd (saveJob e r w)))"
    unfolding saveJob_def Let_def
    by (rule prefix_order.trans[OF _ updateBuildTime_prefix]) simp
  then show ?thesis by (auto simp: prefix_def)
qed

lemma saveJob_events:
  "\<exists>evs. trace (snd (saveJob e r w)) =
     trace w @ JobStoreUpdate (jobs w r) (jobStore_Update e (trace w) (jobs w r)) # evs \<and>
     filter worker_event evs = []"
proof -
  obtain evs where evs: "trace (snd (saveJob e r w)) =
     trace w @ JobStoreUpdate (jobs w r) (jobStore_Update e (trace w) (jobs w r)) # evs"
    using saveJob_first by blast
  have "wtrace (snd (saveJob e r w)) = wtrace w" by simp
  then have "filter worker_event evs = []" by (simp add: wtrace_def evs)
  with evs show ?thesis by blast
qed

subsection \<open>The queue\<close>

lemma find_in_None: "find_in h i rs = None \<longleftrightarrow> i \<notin> set (map (\<lambda>r. job_ID (h r)) rs)"
  by (induction rs) auto

lemma find_in_Some: "find_in h i rs = Some r \<Longrightarrow> r \<in> set rs \<and> job_ID (h r) = i"
  by (induction rs) (auto split: if_splits)

lemma not_queued: "i \<notin> set (queued_ids w) \<Longrightarrow> find_in (jobs w) i (queued w) = None"
  by (simp add: find_in_None queued_ids_def)

lemma remove_in_ids: "map (\<lambda>r. job_ID (h r)) (remove_in h i rs) = remove1 i (map (\<lambda>r. job_ID (h r)) rs)"
  by (induction rs) auto

lemma remove_in_absent: "find_in h i rs = None \<Longrightarrow> remove_in h i rs = rs"
  by (induction rs) (auto split: if_splits)

lemma count_list_remove1: "count_list (remove1 x xs) x = count_list xs x - 1"
  by (induction xs) auto

lemma removeJob_simps [simp]:
  "queued (removeJob i w) = remove_in (jobs w) i (queued w)"
  "pending (removeJob i w) = pending w"
  "paused (removeJob i w) = paused w"
  "ready (removeJob i w) = ready w"
  "jobs (removeJob i w) = jobs w"
  "workers (removeJob i w) = workers w"
  "trace (removeJob i w) = trace w"
  by (simp_all add: removeJob_def)

lemma next_signal_simps [simp]:
  "queued (next_signal w) = queued w" "pending (next_signal w) = pending w"
  "paused (next_signal w) = paused w" "ready (next_signal w) = True"
  "jobs (next_signal w) = jobs w" "workers (next_signal w) = workers w"
  "trace (next_signal w) = trace w"
  by (simp_all add: next_signal_def)

lemma mark_failing_simps [simp]:
  "queued (mark_failing e r w) = queued w"
  "pending (mark_failing e r w) = pending w"
  "paused (mark_failing e r w) = paused w"
  "ready (mark_failing e r w) = ready w"
  "workers (mark_failing e r w) = workers w"
  "trace (mark_failing e r w) = trace w"
  "job_ID (jobs (mark_failing e r w) r') = job_ID (jobs w r')"
  "job_Status (jobs (mark_failing e r w) r) = ''failing''"
  "job_EndTime (jobs (mark_failing e r w) r) = Some (lib_TimeNow e (trace w))"
  by (simp_all add: mark_failing_def)

subsection \<open>The four paths of Stop\<close>

lemma getWorker_world [simp]: "snd (getWorker e i w) = emit [WorkersList] w"
  by (simp add: getWorker_def Let_def split: sum.splits option.splits)

lemma after_StopJob_simps [simp]:
  "queued (after_StopJob e r x pb w) = queued w"
  "paused (after_StopJob e r x pb w) = paused w"
  "ready (after_StopJob e r x pb w) = ready w"
  "jobs (after_StopJob e r x pb w) = jobs w"
  "workers (after_StopJob e r x pb w) = workers w"
  "trace (after_StopJob e r x pb w) = trace w @ [WorkersList, WorkerStopJob x pb]"
  "pending (after_StopJob e r x pb w) =
     (if snd (worker_StopJob e (trace w @ [WorkersList]) x pb) = None then pending w
      else (pending w)(job_ID (jobs w r) := None))"
  by (simp_all add: after_StopJob_def Let_def)

lemma Stop_queued_branch:
  assumes "find_in (jobs w) i (queued w) = Some r"
  shows "Stop e i w =
    (if fst (saveJob e r (mark_failing e r (removeJob i w))) = None
     then Returns (True, None) else Panics,
     snd (saveJob e r (mark_failing e r (removeJob i w))))"
  using assms by (simp add: Stop_def findJob_def Let_def case_prod_beta split: option.splits)

lemma Stop_unknown_branch:
  assumes "find_in (jobs w) i (queued w) = None" "pending w i = None"
  shows "Stop e i w = (Returns (False, None), w)"
  using assms by (simp add: Stop_def findJob_def)

lemma Stop_unresolved_branch:
  assumes "find_in (jobs w) i (queued w) = None" "pending w i = Some (r, pb)"
    and "fst (getWorker e (pb_WorkerId pb) w) = Inl er"
  shows "Stop e i w =
    (Returns (False, Some er), snd (saveJob e r (mark_failing e r (emit [WorkersList] w))))"
  using assms by (simp add: Stop_def findJob_def Let_def case_prod_beta split: sum.splits)

lemma Stop_resolved_branch:
  assumes "find_in (jobs w) i (queued w) = None" "pending w i = Some (r, pb)"
    and "fst (getWorker e (pb_WorkerId pb) w) = Inr x"
  shows "Stop e i w =
    (Returns (fst (worker_StopJob e (trace w @ [WorkersList]) x pb), None),
     snd (saveJob e r (mark_failing e r (after_StopJob e r x pb w))))"
  using assms by (simp add: Stop_def findJob_def Let_def case_prod_beta after_StopJob_def split: sum.splits)

lemma Stop_job_ID [simp]: "job_ID (jobs (snd (Stop e i w)) r') = job_ID (jobs w r')"
proof (cases "find_in (jobs w) i (queued w)")
  case (Some r)
  then show ?thesis by (simp add: Stop_queued_branch)
next
  case None
  show ?thesis
  proof (cases "pending w i")
    case n: None
    with None show ?thesis by (simp add: Stop_unknown_branch)
  next
    case (Some p)
    obtain r pb where p: "p = (r, pb)" by (cases p)
    show ?thesis
    proof (cases "fst (getWorker e (pb_WorkerId pb) w)")
      case (Inl er)
      with None Some p show ?thesis by (simp add: Stop_unresolved_branch)
    next
      case (Inr x)
      with None Some p show ?thesis by (simp add: Stop_resolved_branch)
    qed
  qed
qed

lemma Stop_queued [simp]: "queued (snd (Stop e i w)) = remove_in (jobs w) i (queued w)"
proof (cases "find_in (jobs w) i (queued w)")
  case (Some r)
  then show ?thesis by (simp add: Stop_queued_branch)
next
  case None
  show ?thesis
  proof (cases "pending w i")
    case n: None
    with None show ?thesis by (simp add: Stop_unknown_branch remove_in_absent)
  next
    case (Some p)
    obtain r pb where p: "p = (r, pb)" by (cases p)
    show ?thesis
    proof (cases "fst (getWorker e (pb_WorkerId pb) w)")
      case (Inl er)
      with None Some p show ?thesis by (simp add: Stop_unresolved_branch remove_in_absent)
    next
      case (Inr x)
      with None Some p show ?thesis by (simp add: Stop_resolved_branch remove_in_absent)
    qed
  qed
qed

text \<open>\<open>Stop\<close> panics exactly when the id is queued and \<open>saveJob\<close> reports an error.\<close>

lemma Stop_Panics_iff:
  "fst (Stop e i w) = Panics \<longleftrightarrow>
     (\<exists>r. find_in (jobs w) i (queued w) = Some r \<and>
          fst (saveJob e r (mark_failing e r (removeJob i w))) \<noteq> None)"
proof (cases "find_in (jobs w) i (queued w)")
  case (Some r)
  then show ?thesis by (simp add: Stop_queued_branch)
next
  case None
  show ?thesis
  proof (cases "pending w i")
    case n: None
    with None show ?thesis by (simp add: Stop_unknown_branch)
  next
    case (Some p)
    obtain r pb where p: "p = (r, pb)" by (cases p)
    show ?thesis
    proof (cases "fst (getWorker e (pb_WorkerId pb) w)")
      case (Inl er)
      with None Some p show ?thesis by (simp add: Stop_unresolved_branch)
    next
      case (Inr x)
      with None Some p show ?thesis by (simp add: Stop_resolved_branch)
    qed
  qed
qed

lemma Next_Panics:
  "fst (Stop e (job_ID (jobs w r)) w) = Panics \<Longrightarrow>
   Next e r w = (Panics, snd (Stop e (job_ID (jobs w r)) w))"
  by (cases "Stop e (job_ID (jobs w r)) w") (simp add: Next_def)

lemma Next_Returns:
  assumes "fst (Stop e (job_ID (jobs w r)) w) = Returns res"
  shows "fst (Next e r w) = Returns None"
    and "queued (snd (Next e r w)) = remove_in (jobs w) (job_ID (jobs w r)) (queued w) @ [r]"
    and "paused (snd (Next e r w)) = paused (snd (Stop e (job_ID (jobs w r)) w))"
    and "ready (snd (Next e r w))"
    and "workers (snd (Next e r w)) = workers (snd (Stop e (job_ID (jobs w r)) w))"
    and "job_Status (jobs (snd (Next e r w)) r) = ''queued''"
proof -
  obtain w1 where s: "Stop e (job_ID (jobs w r)) w = (Returns res, w1)"
    using assms by (cases "Stop e (job_ID (jobs w r)) w") simp
  have q: "queued w1 = remove_in (jobs w) (job_ID (jobs w r)) (queued w)"
    using Stop_queued[of e "job_ID (jobs w r)" w] by (simp add: s)
  show "fst (Next e r w) = Returns None"
    and "queued (snd (Next e r w)) = remove_in (jobs w) (job_ID (jobs w r)) (queued w) @ [r]"
    and "paused (snd (Next e r w)) = paused (snd (Stop e (job_ID (jobs w r)) w))"
    and "ready (snd (Next e r w))"
    and "workers (snd (Next e r w)) = workers (snd (Stop e (job_ID (jobs w r)) w))"
    and "job_Status (jobs (snd (Next e r w)) r) = ''queued''"
    by (simp_all add: Next_def s Let_def q)
qed

lemma Next_job_ID [simp]: "job_ID (jobs (snd (Next e r w)) r') = job_ID (jobs w r')"
proof (cases "Stop e (job_ID (jobs w r)) w")
  case (Pair c w1)
  have "job_ID (jobs w1 r') = job_ID (jobs w r')" for r'
    using Stop_job_ID[of e "job_ID (jobs w r)" w r'] by (simp add: Pair)
  then show ?thesis by (cases c) (simp_all add: Next_def Pair Let_def)
qed

lemma Next_queued_ids:
  "queued_ids (snd (Next e r w)) =
     (if fst (Stop e (job_ID (jobs w r)) w) = Panics
      then remove1 (job_ID (jobs w r)) (queued_ids w)
      else remove1 (job_ID (jobs w r)) (queued_ids w) @ [job_ID (jobs w r)])"
proof (cases "fst (Stop e (job_ID (jobs w r)) w)")
  case (Returns res)
  then show ?thesis
    by (simp add: queued_ids_def Next_Returns(2)[OF Returns] remove_in_ids)
next
  case Panics
  then show ?thesis
    by (simp add: queued_ids_def Next_Panics remove_in_ids)
qed

text \<open>
  Two admissions of the same job that both return leave its id in the queue once, when the
  queue held the id at most once before.
\<close>

lemma Next_twice_returns_one_entry:
  assumes "count_list (queued_ids w) (job_ID (jobs w r)) \<le> 1"
    and "fst (Next e r w) \<noteq> Panics" "fst (Next e r (snd (Next e r w))) \<noteq> Panics"
  shows "count_list (queued_ids (snd (Next e r (snd (Next e r w))))) (job_ID (jobs w r)) = 1"
proof -
  have 1: "fst (Stop e (job_ID (jobs w r)) w) \<noteq> Panics"
    using assms(2) Next_Panics[of e w r] by auto
  have 2: "fst (Stop e (job_ID (jobs w r)) (snd (Next e r w))) \<noteq> Panics"
    using assms(3) Next_Panics[of e "snd (Next e r w)" r] by auto
  show ?thesis
    using assms(1) 1 2 by (simp add: Next_queued_ids count_list_remove1)
qed

text \<open>The ids in the queue stay distinct under \<open>Stop\<close>, \<open>Next\<close>, \<open>process\<close> and \<open>startJob\<close>.\<close>

lemma distinct_count_list: "distinct xs \<Longrightarrow> count_list xs x \<le> 1"
  by (induction xs) auto

lemma Stop_distinct: "distinct (queued_ids w) \<Longrightarrow> distinct (queued_ids (snd (Stop e i w)))"
  by (simp add: queued_ids_def remove_in_ids)

lemma Next_distinct: "distinct (queued_ids w) \<Longrightarrow> distinct (queued_ids (snd (Next e r w)))"
  by (simp add: Next_queued_ids)

lemma process_distinct:
  "distinct (queued_ids w) \<Longrightarrow> distinct (queued_ids (snd (process e w)))"
  by (auto simp: process_def findWorker_def enqueueJob_def Let_def queued_ids_def
      split: sum.splits option.splits list.splits)

subsection \<open>The lifecycle and the worker's counter\<close>

lemma worker_incr_simps [simp]:
  "queued (worker_incr x w) = queued w" "pending (worker_incr x w) = pending w"
  "paused (worker_incr x w) = paused w" "ready (worker_incr x w) = ready w"
  "jobs (worker_incr x w) = jobs w"
  "workers (worker_incr x w) = (workers w)(x := (workers w x)\<lparr>worker_Running := worker_Running (workers w x) + 1\<rparr>)"
  "trace (worker_incr x w) = trace w @ [WorkerLock x, WorkerRunningInc x, WorkerUnlock x]"
  by (simp_all add: worker_incr_def)

lemma worker_decr_simps [simp]:
  "queued (worker_decr x w) = queued w" "pending (worker_decr x w) = pending w"
  "paused (worker_decr x w) = paused w" "ready (worker_decr x w) = ready w"
  "jobs (worker_decr x w) = jobs w"
  "workers (worker_decr x w) = (workers w)(x := (workers w x)\<lparr>worker_Running := worker_Running (workers w x) - 1\<rparr>)"
  "trace (worker_decr x w) = trace w @ [WorkerLock x, WorkerRunningDec x, WorkerUnlock x]"
  by (simp_all add: worker_decr_def)

lemma wtrace_upd [simp]:
  "wtrace (w\<lparr>jobs := h\<rparr>) = wtrace w" "wtrace (w\<lparr>pending := p\<rparr>) = wtrace w"
  "wtrace (w\<lparr>queued := q\<rparr>) = wtrace w" "wtrace (next_signal w) = wtrace w"
  "wtrace (removeJob i w) = wtrace w"
  "wtrace (worker_incr x w) = wtrace w @ [WorkerLock x, WorkerRunningInc x, WorkerUnlock x]"
  "wtrace (worker_decr x w) = wtrace w @ [WorkerLock x, WorkerRunningDec x, WorkerUnlock x]"
  by (simp_all add: wtrace_def)


lemma descriptor_upd [simp]:
  "descriptor (j\<lparr>job_Status := st\<rparr>) k = descriptor j k"
  "descriptor (j\<lparr>job_Log := l\<rparr>) k = descriptor j k"
  "descriptor (j\<lparr>job_StartTime := s\<rparr>) k = descriptor j k"
  "descriptor (j\<lparr>job_EndTime := t\<rparr>) k = descriptor j k"
  by (simp_all add: descriptor_def)



lemma startJob_job_ID [simp]: "job_ID (jobs (snd (startJob e r x w)) r') = job_ID (jobs w r')"
  by (simp add: startJob_def Let_def case_prod_beta split: option.splits)

lemma startJob_queued [simp]:
  "queued (snd (startJob e r x w)) = remove_in (jobs w) (job_ID (jobs w r)) (queued w)"
  by (simp add: startJob_def Let_def case_prod_beta split: option.splits)

lemma startJob_distinct:
  "distinct (queued_ids w) \<Longrightarrow> distinct (queued_ids (snd (startJob e r x w)))"
  by (simp add: queued_ids_def remove_in_ids)

lemma log_tail_None_iff: "log_tail log = None \<longleftrightarrow> length log < 65536"
  by (simp add: log_tail_def)

subsection \<open>The loops of the aggregator\<close>

lemma walk_jobs_alldone:
  "\<forall>j\<in>set js. job_EndTime j \<noteq> None \<Longrightarrow> fst (walk_jobs js (ad, st, en)) = ad"
  by (induction js arbitrary: st en) (auto simp: Let_def)

lemma walk_jobs_end:
  "\<forall>j\<in>set js. job_EndTime j \<noteq> None \<Longrightarrow>
   (case snd (snd (walk_jobs js (ad, st, en))) of
      None \<Rightarrow> en = None \<and> js = []
    | Some m \<Rightarrow> (en = Some m \<or> (\<exists>j\<in>set js. job_EndTime j = Some m)) \<and>
               (\<forall>t. en = Some t \<longrightarrow> t \<le> m) \<and>
               (\<forall>j\<in>set js. \<forall>t. job_EndTime j = Some t \<longrightarrow> t \<le> m))"
proof (induction js arbitrary: st en)
  case Nil
  then show ?case by (simp split: option.splits)
next
  case (Cons j js)
  then obtain t where t: "job_EndTime j = Some t" by auto
  from Cons.prems have rest: "\<forall>j\<in>set js. job_EndTime j \<noteq> None" by simp
  define en' where "en' = (case en of None \<Rightarrow> Some t | Some m \<Rightarrow> if m < t then Some t else Some m)"
  obtain st' where w: "snd (snd (walk_jobs (j # js) (ad, st, en))) =
     snd (snd (walk_jobs js (ad, st', en')))"
    by (simp add: t Let_def en'_def)
  note ih = Cons.IH[OF rest, where en = en' and st = st']
  show ?case
    unfolding w using ih t
    by (cases en) (fastforce simp: en'_def split: option.splits if_splits)+
qed

lemma walk_jobs_start:
  "\<forall>j\<in>set js. job_EndTime j \<noteq> None \<Longrightarrow>
   (case fst (snd (walk_jobs js (ad, st, en))) of
      None \<Rightarrow> st = None \<and> (\<forall>j\<in>set js. job_StartTime j = None)
    | Some m \<Rightarrow> (st = Some m \<or> (\<exists>j\<in>set js. job_StartTime j = Some m)) \<and>
               (\<forall>t. st = Some t \<longrightarrow> m \<le> t) \<and>
               (\<forall>j\<in>set js. \<forall>t. job_StartTime j = Some t \<longrightarrow> m \<le> t))"
proof (induction js arbitrary: st en)
  case Nil
  then show ?case by (simp split: option.splits)
next
  case (Cons j js)
  then obtain t where t: "job_EndTime j = Some t" by auto
  from Cons.prems have rest: "\<forall>j\<in>set js. job_EndTime j \<noteq> None" by simp
  define st' where "st' = (case st of None \<Rightarrow> job_StartTime j
                             | Some m \<Rightarrow> (case job_StartTime j of None \<Rightarrow> Some m
                                  | Some s \<Rightarrow> if s < m then Some s else Some m))"
  have w: "fst (snd (walk_jobs (j # js) (ad, st, en))) =
     fst (snd (walk_jobs js (ad, st', case en of None \<Rightarrow> Some t | Some m \<Rightarrow> if m < t then Some t else Some m)))"
    by (simp add: t Let_def st'_def)
  note ih = Cons.IH[OF rest, where st = st' and en = "case en of None \<Rightarrow> Some t | Some m \<Rightarrow> if m < t then Some t else Some m"]
  show ?case
    unfolding w using ih
    by (cases st; cases "job_StartTime j") (fastforce simp: st'_def split: option.splits if_splits)+
qed

lemma walk_jobs_break:
  "\<forall>j\<in>set pre. job_EndTime j \<noteq> None \<Longrightarrow> job_EndTime j = None \<Longrightarrow>
   walk_jobs (pre @ j # js) (ad, st, en) = (False, snd (walk_jobs pre (ad, st, en)))"
  by (induction pre arbitrary: st en) (auto simp: Let_def)

lemma all_passing_iff: "all_passing js \<longleftrightarrow> (\<forall>j\<in>set js. job_Status j = ''passing'')"
  by (induction js) auto

lemma max_end_of_unique: "max_end_of js m \<Longrightarrow> max_end_of js m' \<Longrightarrow> m = m'"
  by (meson max_end_of_def order_antisym)

lemma min_start_of_unique: "min_start_of js m \<Longrightarrow> min_start_of js m' \<Longrightarrow> m = m'"
  by (meson min_start_of_def order_antisym)

subsection \<open>The loop of the worker selector\<close>

lemma pick_worker_result:
  "pick_worker h xs (best, c) = (best', c') \<Longrightarrow>
     sint c \<le> sint c' \<and>
     (\<forall>x\<in>set xs. sint (worker_Max (h x) - worker_Running (h x)) \<le> sint c') \<and>
     ((best' = best \<and> c' = c) \<or>
      (\<exists>x\<in>set xs. best' = Some x \<and> worker_Max (h x) - worker_Running (h x) = c' \<and> sint c < sint c'))"
proof (induction xs arbitrary: best c)
  case Nil
  then show ?case by simp
next
  case (Cons a xs)
  let ?d = "worker_Max (h a) - worker_Running (h a)"
  show ?case
  proof (cases "c <s ?d")
    case True
    with Cons.prems have "pick_worker h xs (Some a, ?d) = (best', c')" by (simp add: Let_def)
    from Cons.IH[OF this] True show ?thesis
      by (auto simp: word_sless_alt)
  next
    case False
    with Cons.prems have "pick_worker h xs (best, c) = (best', c')" by (simp add: Let_def)
    from Cons.IH[OF this] False show ?thesis
      by (auto simp: word_sless_alt)
  qed
qed

lemma nonneg_diff:
  fixes a b :: goint
  assumes "0 \<le>s a" "0 \<le>s b"
  shows "sint (a - b) = sint a - sint b"
proof -
  have a: "0 \<le> sint a" "0 \<le> sint b" using assms by (simp_all add: word_sle_eq)
  have b: "sint a < 2 ^ 63" "sint b < 2 ^ 63" using sint_lt[of a] sint_lt[of b] by simp_all
  have "signed_take_bit 63 (sint a - sint b) = sint a - sint b"
    by (rule signed_take_bit_int_eq_self) (use a b in linarith)+
  then show ?thesis by (simp add: sint_word_ariths)
qed

lemma pick_worker_start:
  assumes "fst (pick_worker h xs (None, 0)) = res"
  shows "(res = None \<longleftrightarrow> (\<forall>x\<in>set xs. sint (worker_Max (h x) - worker_Running (h x)) \<le> 0))"
    and "res = Some x \<Longrightarrow> x \<in> set xs \<and> 0 < sint (worker_Max (h x) - worker_Running (h x)) \<and>
           (\<forall>y\<in>set xs. sint (worker_Max (h y) - worker_Running (h y))
                         \<le> sint (worker_Max (h x) - worker_Running (h x)))"
proof -
  obtain c' where p: "pick_worker h xs (None, 0) = (res, c')"
    using assms by (cases "pick_worker h xs (None, 0)") simp
  note r = pick_worker_result[OF p]
  show "(res = None \<longleftrightarrow> (\<forall>x\<in>set xs. sint (worker_Max (h x) - worker_Running (h x)) \<le> 0))"
    using r by fastforce
  show "res = Some x \<Longrightarrow> x \<in> set xs \<and> 0 < sint (worker_Max (h x) - worker_Running (h x)) \<and>
           (\<forall>y\<in>set xs. sint (worker_Max (h y) - worker_Running (h y))
                         \<le> sint (worker_Max (h x) - worker_Running (h x)))"
    using r by fastforce
qed

subsection \<open>The example worlds\<close>

lemmas ex_defs = env0_def world0_def example_job_def example_build_def

lemma saveJob_env0:
  "saveJob env0 r w = (None,
     emit [JobStoreUpdate (jobs w r) None, broadcastJobStatus (jobs w r),
           BuildStoreFind (job_BuildID (jobs w r))] w)"
  by (simp add: saveJob_def updateBuildTime_def Let_def env0_def emit_def example_build_def)

lemma saveJob_env_db_down: "saveJob env_db_down r w = (Some (External ''database is down''),
   emit [JobStoreUpdate (jobs w r) None, broadcastJobStatus (jobs w r), BuildStoreFind (job_BuildID (jobs w r))] w)"
  by (simp add: saveJob_def updateBuildTime_def Let_def env_db_down_def env0_def emit_def)

lemma world_paused_fields:
  "paused world_paused" "ready world_paused" "queued world_paused = [0]"
  "job_Status (jobs world_paused 0) = ''queued''" "workers world_paused = workers world0"
proof -
  have "Stop env0 (job_ID (jobs (snd (Pause world0)) 0)) (snd (Pause world0)) =
      (Returns (False, None), snd (Pause world0))"
    by (rule Stop_unknown_branch) (simp_all add: Pause_def world0_def)
  then have n: "world_paused =
     next_signal (snd (saveJob env0 0 ((snd (Pause world0))
       \<lparr>queued := queued (snd (Pause world0)) @ [0],
        jobs := (jobs (snd (Pause world0)))(0 := (jobs (snd (Pause world0)) 0)
           \<lparr>job_Status := ''queued'', job_StartTime := None, job_EndTime := None\<rparr>)\<rparr>)))"
    by (simp add: world_paused_def Next_def Let_def)
  show "paused world_paused" "ready world_paused" "queued world_paused = [0]"
    "job_Status (jobs world_paused 0) = ''queued''" "workers world_paused = workers world0"
    by (simp_all add: n Pause_def world0_def)
qed

lemma run_ready_world_paused:
  "run_ready env0 world_paused =
     ((None, Some (0, 1)),
      (emit (WorkersList # guard_events [0, 1]) (world_paused\<lparr>ready := False\<rparr>))\<lparr>queued := []\<rparr>)"
proof -
  have l: "workers_List env0 h = Inr [0, 1]" for h by (simp add: env0_def)
  have p: "fst (pick_worker (workers world0) [0, Suc 0] (None, 0)) = Some (Suc 0)"
    by (simp add: world0_def word_sless_alt)
  show ?thesis
    by (simp add: run_ready_def process_def findWorker_def Let_def l p world_paused_fields
        enqueueJob_def emit_def del: pick_worker.simps)
qed

text \<open>
  \<open>process\<close> decides without the \<open>paused\<close> flag: no method of the scheduler reads it.
\<close>

lemma Resume_clears_paused: "\<not> paused (snd (Resume w)) \<and> ready (snd (Resume w))"
  by (simp add: Resume_def)

lemma process_ignores_paused:
  "fst (process e (w\<lparr>paused := b\<rparr>)) = fst (process e w)"
  by (simp add: process_def findWorker_def enqueueJob_def Let_def emit_def
      split: sum.splits option.splits list.splits)

section \<open>The claims\<close>

subsection \<open>C1: a paused scheduler does not dispatch\<close>

text \<open>
  Claim C1: while the \<open>paused\<close> flag is set, a dispatch attempt of the loop does nothing: no
  job is popped from the admission queue and no job leaves the status \<open>queued\<close>, even if a
  worker has free capacity.

  The code does not do this. \<open>Pause\<close> sets the flag and \<open>process\<close> never reads it. After
  \<open>Pause()\<close> and \<open>Next(job 5)\<close>, with worker \<open>w1\<close> free, the scheduler is paused, the token
  is in \<open>ready\<close> and job 5 is queued; the loop's \<open>process\<close> pops job 5 and starts
  \<open>startJob\<close> for it on \<open>w1\<close>, and the lifecycle takes the job to \<open>passing\<close>, with the flag
  still set.
\<close>

theorem dispatch_while_paused:
  "paused world_paused \<and> ready world_paused \<and> queued world_paused = [0] \<and>
   job_Status (jobs world_paused 0) = ''queued'' \<and>
   fst (run_ready env0 world_paused) = (None, Some (0, 1)) \<and>
   paused world_woken \<and> queued world_woken = [] \<and>
   job_Status (jobs (snd (startJob env0 0 1 world_woken)) 0) = ''passing''"
proof -
  have s: "worker_StartJob env0 h x k j = (Some (j\<lparr>pb_Status := ''passing'', pb_Log := [''ok'']\<rparr>), None)"
    for h x k j by (simp add: env0_def)
  have "job_Status (jobs (snd (startJob env0 0 1 world_woken)) 0) = ''passing''"
    by (simp add: startJob_def Let_def case_prod_beta saveJob_env0 s GetStatus_def)
  moreover have "paused world_woken" "queued world_woken = []"
    by (simp_all add: world_woken_def run_ready_world_paused world_paused_fields)
  ultimately show ?thesis
    by (simp add: world_paused_fields run_ready_world_paused)
qed

subsection \<open>C2: the retry with a truncated log\<close>

text \<open>
  Claim C2: if the first persist after the run fails, the log is cut to its last 65,536 bytes
  and the persist is retried once; the cut is well defined for a log of every length, also
  one shorter than 65,536 bytes.

  The code does not do this for a short log. \<open>log[len(log)-65536:]\<close> has a negative bound
  when the log is shorter than 65,536 bytes, and Go panics. With the build store down and a
  worker that returns the log \<open>ok\<close>, \<open>startJob\<close> panics at the cut: the job keeps the log
  \<open>ok\<close> and its entry in the pending registry.
\<close>

theorem startJob_short_log_panics:
  "log_tail ''ok'' = None \<and>
   fst (startJob env_db_down 0 1 world_queued) = Panicked \<and>
   job_Log (jobs (snd (startJob env_db_down 0 1 world_queued)) 0) = ''ok'' \<and>
   pending (snd (startJob env_db_down 0 1 world_queued)) 5 \<noteq> None"
proof -
  have a: "worker_StartJob env_db_down h x k j =
      (Some (j\<lparr>pb_Status := ''passing'', pb_Log := [''ok'']\<rparr>), None)" for h x k j
    by (simp add: env_db_down_def env0_def)
  have b: "log_tail ''ok'' = None" by (simp add: log_tail_def)
  have i: "job_ID (jobs world_queued 0) = 5" by (simp add: ex_defs world_queued_def env_db_down_def)
  have "fst (startJob env_db_down 0 1 world_queued) = Panicked"
    "job_Log (jobs (snd (startJob env_db_down 0 1 world_queued)) 0) = ''ok''"
    "pending (snd (startJob env_db_down 0 1 world_queued)) 5 \<noteq> None"
    by (simp_all add: startJob_def Let_def case_prod_beta saveJob_env_db_down a GetLog_def b i)
  with b show ?thesis by simp
qed

subsection \<open>C3: the start time of a build\<close>

text \<open>
  Claim C3: the aggregator takes the least start time of all jobs of the build and, when
  there is one, sets \<open>build.start_time\<close> to it and persists the build, also when another job
  of the build has not finished.

  The code does not do this. The loop leaves by \<open>break\<close> at the first job without end time,
  before it looks at that job's start time. A build whose only job runs since time 3 gets no
  start time and is not persisted; a build whose first job ran from 5 to 10 and whose second
  job runs since 3 gets the start time 5.
\<close>

theorem updateBuildTime_unfinished_job:
  "updateBuildTime env_running 7 world0 = (None, emit [BuildStoreFind 7] world0) \<and>
   updateBuildTime env_one_running 7 world0 =
     (None, emit [BuildStoreFind 7,
                  BuildStoreUpdate (example_build (Some 5) None
                    [example_job 5 ''passing'' (Some 5) (Some 10),
                     example_job 6 ''running'' (Some 3) None])] world0)"
  by (simp add: env_running_def env_one_running_def env0_def updateBuildTime_def Let_def
      example_build_def example_job_def emit_def)

subsection \<open>C4: Stop of a pending job whose worker is found\<close>

text \<open>
  Claim C4 says that \<open>Stop\<close> returns the error of \<open>StopJob\<close>. It does not: with a worker
  whose \<open>StopJob\<close> answers \<open>(false, worker unreachable)\<close>, \<open>Stop\<close> returns \<open>(false, nil)\<close>.
\<close>

theorem Stop_pending_claim_counterexample:
  "7 \<notin> set (queued_ids world_pending) \<and>
   pending world_pending 7 = Some (2, example_pb) \<and>
   fst (getWorker env_stop_fails (pb_WorkerId example_pb) world_pending) = Inr 1 \<and>
   worker_StopJob env_stop_fails (trace world_pending @ [WorkersList]) 1 example_pb =
     (False, Some (External ''worker unreachable'')) \<and>
   fst (Stop env_stop_fails 7 world_pending) = Returns (False, None)"
  by (simp add: ex_defs world_pending_def env_stop_fails_def example_pb_def queued_ids_def Stop_def findJob_def Let_def getWorker_def
      emit_def descriptor_def)

text \<open>
  Claim C4, amended: for an id that is not queued, is in the pending registry and whose
  worker \<open>getWorker\<close> finds, \<open>Stop\<close> calls the worker's \<open>StopJob\<close> once with the recorded
  descriptor, marks the job \<open>failing\<close>, sets its end time, persists it and returns
  \<open>(stopped, nil)\<close>, where \<open>stopped\<close> is the boolean that \<open>StopJob\<close> returned. The error of
  \<open>StopJob\<close> is not returned; when there is one, the entry of the job is deleted from the
  pending registry, otherwise the registry stays as it is.
\<close>

theorem Stop_pending_resolved:
  "i \<notin> set (queued_ids w) \<Longrightarrow> pending w i = Some (r, pb) \<Longrightarrow>
   fst (getWorker e (pb_WorkerId pb) w) = Inr x \<Longrightarrow>
   fst (Stop e i w) = Returns (fst (worker_StopJob e (trace w @ [WorkersList]) x pb), None) \<and>
   (\<exists>a evs. trace (snd (Stop e i w)) =
        trace w @ [WorkersList, WorkerStopJob x pb, JobStoreUpdate (jobs (snd (Stop e i w)) r) a] @ evs \<and>
        filter worker_event evs = []) \<and>
   job_Status (jobs (snd (Stop e i w)) r) = ''failing'' \<and>
   job_EndTime (jobs (snd (Stop e i w)) r) =
     Some (lib_TimeNow e (trace w @ [WorkersList, WorkerStopJob x pb])) \<and>
   pending (snd (Stop e i w)) =
     (if snd (worker_StopJob e (trace w @ [WorkersList]) x pb) = None then pending w
      else (pending w)(job_ID (jobs w r) := None))"
proof -
  assume a: "i \<notin> set (queued_ids w)" "pending w i = Some (r, pb)"
    "fst (getWorker e (pb_WorkerId pb) w) = Inr x"
  note st = Stop_resolved_branch[OF not_queued[OF a(1)] a(2) a(3)]
  let ?w = "mark_failing e r (after_StopJob e r x pb w)"
  from saveJob_events[of e r ?w]
  have "\<exists>a evs. trace (snd (Stop e i w)) =
        trace w @ [WorkersList, WorkerStopJob x pb, JobStoreUpdate (jobs (snd (Stop e i w)) r) a] @ evs \<and>
        filter worker_event evs = []"
    by (auto simp: st)
  then show ?thesis by (simp add: st)
qed

theorem Stop_pending_resolved_witness:
  "7 \<notin> set (queued_ids world_pending) \<and>
   pending world_pending 7 = Some (2, example_pb) \<and>
   fst (getWorker env0 (pb_WorkerId example_pb) world_pending) = Inr 1 \<and>
   fst (Stop env0 7 world_pending) = Returns (True, None) \<and>
   job_Status (jobs (snd (Stop env0 7 world_pending)) 2) = ''failing'' \<and>
   job_EndTime (jobs (snd (Stop env0 7 world_pending)) 2) = Some 2 \<and>
   pending (snd (Stop env0 7 world_pending)) = pending world_pending"
proof -
  have h: "7 \<notin> set (queued_ids world_pending)"
    "pending world_pending 7 = Some (2, example_pb)"
    "fst (getWorker env0 (pb_WorkerId example_pb) world_pending) = Inr 1"
    by (simp_all add: ex_defs world_pending_def example_pb_def queued_ids_def getWorker_def Let_def emit_def descriptor_def)
  have k: "worker_StopJob env0 (trace world_pending @ [WorkersList]) 1 example_pb = (True, None)"
    "lib_TimeNow env0 (trace world_pending @ [WorkersList, WorkerStopJob 1 example_pb]) = 2"
    by (simp_all add: ex_defs world_pending_def)
  from Stop_pending_resolved[OF h] k h show ?thesis by simp
qed

subsection \<open>C5: Stop of a queued job, and of an unknown id\<close>

text \<open>
  What \<open>Stop\<close> does for an id in the admission queue, and for an id that is neither queued
  nor pending: it removes the first entry with the id, marks that job \<open>failing\<close>, sets its end
  time and persists it; it returns \<open>(true, nil)\<close> when \<open>saveJob\<close> reports no error and panics
  when \<open>saveJob\<close> reports one. For an unknown id it returns \<open>(false, nil)\<close> and changes nothing.
\<close>

lemma Stop_queued_effects:
  "(i \<in> set (queued_ids w) \<longrightarrow>
      (\<exists>r. find_in (jobs w) i (queued w) = Some r \<and>
           queued_ids (snd (Stop e i w)) = remove1 i (queued_ids w) \<and>
           job_Status (jobs (snd (Stop e i w)) r) = ''failing'' \<and>
           job_EndTime (jobs (snd (Stop e i w)) r) = Some (lib_TimeNow e (trace w)) \<and>
           (\<exists>a evs. trace (snd (Stop e i w)) =
                trace w @ JobStoreUpdate (jobs (snd (Stop e i w)) r) a # evs) \<and>
           fst (Stop e i w) =
             (if fst (saveJob e r (mark_failing e r (removeJob i w))) = None
              then Returns (True, None) else Panics)))
   \<and> (i \<notin> set (queued_ids w) \<and> pending w i = None \<longrightarrow> Stop e i w = (Returns (False, None), w))"
proof (intro conjI impI)
  assume "i \<in> set (queued_ids w)"
  then obtain r where r: "find_in (jobs w) i (queued w) = Some r"
    using find_in_None[of "jobs w" i "queued w"] by (auto simp: queued_ids_def)
  let ?w2 = "mark_failing e r (removeJob i w)"
  note st = Stop_queued_branch[OF r, of e]
  have ids: "queued_ids (snd (Stop e i w)) = remove1 i (queued_ids w)"
    by (simp add: st queued_ids_def remove_in_ids)
  have tr: "\<exists>a evs. trace (snd (Stop e i w)) =
                trace w @ JobStoreUpdate (jobs (snd (Stop e i w)) r) a # evs"
    using saveJob_first[of e r ?w2] by (auto simp: st)
  show "\<exists>r. find_in (jobs w) i (queued w) = Some r \<and>
           queued_ids (snd (Stop e i w)) = remove1 i (queued_ids w) \<and>
           job_Status (jobs (snd (Stop e i w)) r) = ''failing'' \<and>
           job_EndTime (jobs (snd (Stop e i w)) r) = Some (lib_TimeNow e (trace w)) \<and>
           (\<exists>a evs. trace (snd (Stop e i w)) =
                trace w @ JobStoreUpdate (jobs (snd (Stop e i w)) r) a # evs) \<and>
           fst (Stop e i w) =
             (if fst (saveJob e r (mark_failing e r (removeJob i w))) = None
              then Returns (True, None) else Panics)"
    using r ids tr by (intro exI[of _ r]) (simp add: st)
next
  assume "i \<notin> set (queued_ids w) \<and> pending w i = None"
  then show "Stop e i w = (Returns (False, None), w)"
    using find_in_None[of "jobs w" i "queued w"]
    by (intro Stop_unknown_branch) (auto simp: queued_ids_def)
qed

text \<open>
  Claim C5: for every id in the admission queue, \<open>Stop\<close> removes the entry, marks the job
  \<open>failing\<close>, sets its end time, persists it and returns \<open>(true, nil)\<close>; for an id that is
  neither queued nor pending it returns \<open>(false, nil)\<close>.

  The code does not do this when \<open>saveJob\<close> reports an error. With the build store down,
  \<open>Stop\<close> of the queued job 5 removes the entry, marks the job \<open>failing\<close> with an end time and
  calls the job store; then line 92 takes \<open>err.Error()\<close> of the nil error of \<open>findJob\<close> and
  panics, so that \<open>Stop\<close> returns nothing. With a store that works, \<open>Stop\<close> of the same job
  returns \<open>(true, nil)\<close>, and \<open>Stop\<close> of the unknown id 6 returns \<open>(false, nil)\<close>.
\<close>

theorem Stop_queued_save_fails:
  "5 \<in> set (queued_ids world_queued) \<and>
   fst (saveJob env_db_down 0 (mark_failing env_db_down 0 (removeJob 5 world_queued))) =
     Some (External ''database is down'') \<and>
   fst (Stop env_db_down 5 world_queued) = Panics \<and>
   queued (snd (Stop env_db_down 5 world_queued)) = [] \<and>
   job_Status (jobs (snd (Stop env_db_down 5 world_queued)) 0) = ''failing'' \<and>
   job_EndTime (jobs (snd (Stop env_db_down 5 world_queued)) 0) = Some 0 \<and>
   fst (Stop env0 5 world_queued) = Returns (True, None) \<and>
   Stop env0 6 world_queued = (Returns (False, None), world_queued)"
proof -
  have f: "find_in (jobs world_queued) 5 (queued world_queued) = Some 0"
    "find_in (jobs world_queued) 6 (queued world_queued) = None"
    "pending world_queued 6 = None" "5 \<in> set (queued_ids world_queued)"
    by (simp_all add: ex_defs world_queued_def queued_ids_def)
  have t: "lib_TimeNow env_db_down (trace world_queued) = 0"
    by (simp add: ex_defs world_queued_def env_db_down_def)
  show ?thesis
    using f(3,4) t
    by (simp add: Stop_queued_branch[OF f(1)] Stop_unknown_branch[OF f(2,3)]
        saveJob_env_db_down saveJob_env0)
       (simp add: ex_defs world_queued_def)
qed

subsection \<open>C6: the worker selector\<close>

text \<open>
  Claim C6: \<open>findWorker\<close> returns the worker with the strictly greatest free capacity among
  the registered workers, returns nil when the greatest free capacity is at most 0 (a worker
  with \<open>running \<ge> max\<close> is skipped), returns nil without error when the registry is empty,
  and fails only when \<open>List\<close> fails.

  The free capacity is the difference as the code computes it. For counters that are not
  negative the difference cannot overflow, and a worker with \<open>Max \<le> Running\<close> is skipped.
  The worker returned has the greatest free capacity of all, and a worker whose positive
  free capacity is greater than that of every other worker is the one returned.
\<close>

theorem findWorker_selects:
  "(\<forall>er. workers_List e (trace w) = Inl er \<longrightarrow> fst (findWorker e w) = Inl er) \<and>
   (\<forall>ws. workers_List e (trace w) = Inr ws \<longrightarrow>
      (\<exists>res. fst (findWorker e w) = Inr res \<and>
         (res = None \<longleftrightarrow> (\<forall>x\<in>set ws. free_capacity w x \<le> 0)) \<and>
         (\<forall>x. res = Some x \<longrightarrow>
              x \<in> set ws \<and> 0 < free_capacity w x \<and>
              (\<forall>y\<in>set ws. free_capacity w y \<le> free_capacity w x)) \<and>
         (\<forall>k<length ws.
              0 < free_capacity w (ws ! k) \<and>
              (\<forall>l<length ws. l \<noteq> k \<longrightarrow> free_capacity w (ws ! l) < free_capacity w (ws ! k))
              \<longrightarrow> res = Some (ws ! k)) \<and>
         (\<forall>x\<in>set ws.
              0 \<le>s worker_Max (workers w x) \<and> 0 \<le>s worker_Running (workers w x) \<and>
              worker_Max (workers w x) \<le>s worker_Running (workers w x) \<longrightarrow> res \<noteq> Some x) \<and>
         (ws = [] \<longrightarrow> res = None)))"
proof (intro conjI allI impI)
  fix er assume "workers_List e (trace w) = Inl er"
  then show "fst (findWorker e w) = Inl er" by (simp add: findWorker_def Let_def)
next
  fix ws assume l: "workers_List e (trace w) = Inr ws"
  define res where "res = fst (pick_worker (workers w) ws (None, 0))"
  have f: "fst (findWorker e w) = Inr res" by (simp add: findWorker_def Let_def l res_def)
  note pw = pick_worker_start[OF res_def[symmetric]]
  have none: "res = None \<longleftrightarrow> (\<forall>x\<in>set ws. free_capacity w x \<le> 0)"
    using pw(1) by (simp add: free_capacity_def)
  have some: "\<And>x. res = Some x \<Longrightarrow> x \<in> set ws \<and> 0 < free_capacity w x \<and>
              (\<forall>y\<in>set ws. free_capacity w y \<le> free_capacity w x)"
    using pw(2) by (simp add: free_capacity_def)
  have strict: "res = Some (ws ! k)"
    if k: "k < length ws" "0 < free_capacity w (ws ! k)"
      "\<forall>l<length ws. l \<noteq> k \<longrightarrow> free_capacity w (ws ! l) < free_capacity w (ws ! k)" for k
  proof (cases res)
    case None
    with none have "free_capacity w (ws ! k) \<le> 0" using nth_mem[OF k(1)] by blast
    with k(2) show ?thesis by simp
  next
    case (Some x)
    from some[OF Some] obtain l where l: "l < length ws" "ws ! l = x"
      by (auto simp: in_set_conv_nth)
    from some[OF Some] k(1) have "free_capacity w (ws ! k) \<le> free_capacity w x" by auto
    with k(3) l have "l = k" by force
    with l Some show ?thesis by simp
  qed
  have skip: "res \<noteq> Some x"
    if "0 \<le>s worker_Max (workers w x)" "0 \<le>s worker_Running (workers w x)"
      "worker_Max (workers w x) \<le>s worker_Running (workers w x)" for x
  proof
    assume "res = Some x"
    from some[OF this] have "0 < free_capacity w x" by simp
    moreover have "free_capacity w x \<le> 0"
      using that by (simp add: free_capacity_def nonneg_diff word_sle_eq)
    ultimately show False by simp
  qed
  have empty: "ws = [] \<Longrightarrow> res = None" by (simp add: res_def)
  show "\<exists>res. fst (findWorker e w) = Inr res \<and>
         (res = None \<longleftrightarrow> (\<forall>x\<in>set ws. free_capacity w x \<le> 0)) \<and>
         (\<forall>x. res = Some x \<longrightarrow>
              x \<in> set ws \<and> 0 < free_capacity w x \<and>
              (\<forall>y\<in>set ws. free_capacity w y \<le> free_capacity w x)) \<and>
         (\<forall>k<length ws.
              0 < free_capacity w (ws ! k) \<and>
              (\<forall>l<length ws. l \<noteq> k \<longrightarrow> free_capacity w (ws ! l) < free_capacity w (ws ! k))
              \<longrightarrow> res = Some (ws ! k)) \<and>
         (\<forall>x\<in>set ws.
              0 \<le>s worker_Max (workers w x) \<and> 0 \<le>s worker_Running (workers w x) \<and>
              worker_Max (workers w x) \<le>s worker_Running (workers w x) \<longrightarrow> res \<noteq> Some x) \<and>
         (ws = [] \<longrightarrow> res = None)"
    using f none some strict skip empty by (intro exI[of _ res]) blast
qed

theorem findWorker_selects_witness:
  "workers_List env0 (trace world0) = Inr [0, 1] \<and> free_capacity world0 0 = 0 \<and>
   free_capacity world0 1 = 2 \<and> fst (findWorker env0 world0) = Inr (Some 1)"
proof -
  have l: "workers_List env0 (trace world0) = Inr [0, 1]" by (simp add: ex_defs)
  have c: "free_capacity world0 0 = 0" "free_capacity world0 1 = 2"
    by (simp_all add: free_capacity_def ex_defs)
  from findWorker_selects[of env0 world0] l obtain res where
    r: "fst (findWorker env0 world0) = Inr res"
    and s: "\<forall>k<length [0::nat, 1].
              0 < free_capacity world0 ([0, 1] ! k) \<and>
              (\<forall>l<length [0::nat, 1]. l \<noteq> k \<longrightarrow>
                  free_capacity world0 ([0, 1] ! l) < free_capacity world0 ([0, 1] ! k))
              \<longrightarrow> res = Some ([0, 1] ! k)"
    by blast
  have "\<forall>l<length [0::nat, 1]. l \<noteq> 1 \<longrightarrow>
          free_capacity world0 ([0, 1] ! l) < free_capacity world0 ([0, 1] ! 1)"
    using c by (auto simp: less_Suc_eq)
  with s[rule_format, of 1] c have "res = Some 1" by simp
  with l c r show ?thesis by simp
qed

subsection \<open>C7: a build whose jobs have all ended\<close>

text \<open>
  Claim C7: once every job of a build has an end time, the aggregator sets
  \<open>build.end_time\<close> to the greatest end time of the jobs, persists the build, derives the
  state \<open>success\<close> if every job is \<open>passing\<close> and \<open>error\<close> otherwise, and hands that state to
  \<open>sendStatus\<close>; when the build has both times already, the aggregator does nothing.

  The first part is stated for a build that the store finds, that has at least one job and
  that does not have both times yet, and for a store whose updates succeed: then the result
  of \<open>updateBuildTime\<close> is the result of \<open>sendStatus\<close> on the build with the new end time,
  called after the build was persisted with it.
\<close>

theorem updateBuildTime_terminal:
  "(buildStore_Find e (trace w) i = Inr b \<and> build_StartTime b \<noteq> None \<and> build_EndTime b \<noteq> None \<longrightarrow>
      updateBuildTime e i w = (None, emit [BuildStoreFind i] w))
   \<and>
   (buildStore_Find e (trace w) i = Inr b \<and>
    \<not> (build_StartTime b \<noteq> None \<and> build_EndTime b \<noteq> None) \<and>
    build_Jobs b \<noteq> [] \<and> (\<forall>j\<in>set (build_Jobs b). job_EndTime j \<noteq> None) \<and>
    (\<forall>h b'. buildStore_Update e h b' = None) \<longrightarrow>
      (\<exists>m s b1 pre.
         max_end_of (build_Jobs b) m \<and>
         (case s of
            None \<Rightarrow> (\<forall>j\<in>set (build_Jobs b). job_StartTime j = None) \<and> b1 = b \<and> pre = []
          | Some t \<Rightarrow> min_start_of (build_Jobs b) t \<and> b1 = b\<lparr>build_StartTime := Some t\<rparr> \<and>
                      pre = [BuildStoreUpdate b1]) \<and>
         updateBuildTime e i w =
           sendStatus e (b1\<lparr>build_EndTime := Some m\<rparr>)
             (if \<forall>j\<in>set (build_Jobs b). job_Status j = ''passing'' then StateSuccess else StateError)
             (emit (BuildStoreFind i # pre @ [BuildStoreUpdate (b1\<lparr>build_EndTime := Some m\<rparr>)]) w)))"
proof (rule conjI; rule impI)
  assume "buildStore_Find e (trace w) i = Inr b \<and> build_StartTime b \<noteq> None \<and> build_EndTime b \<noteq> None"
  then show "updateBuildTime e i w = (None, emit [BuildStoreFind i] w)"
    by (simp add: updateBuildTime_def Let_def)
next
  let ?js = "build_Jobs b"
  assume h: "buildStore_Find e (trace w) i = Inr b \<and>
    \<not> (build_StartTime b \<noteq> None \<and> build_EndTime b \<noteq> None) \<and>
    build_Jobs b \<noteq> [] \<and> (\<forall>j\<in>set (build_Jobs b). job_EndTime j \<noteq> None) \<and>
    (\<forall>h b'. buildStore_Update e h b' = None)"
  then have ended: "\<forall>j\<in>set ?js. job_EndTime j \<noteq> None" and ne: "?js \<noteq> []"
    and upd: "\<And>h b'. buildStore_Update e h b' = None"
    and find: "buildStore_Find e (trace w) i = Inr b"
    and guard: "\<not> (build_StartTime b \<noteq> None \<and> build_EndTime b \<noteq> None)"
    by simp_all
  obtain ad s en where wk: "walk_jobs ?js (True, None, None) = (ad, s, en)"
    by (cases "walk_jobs ?js (True, None, None)")
  have ad: "ad" using walk_jobs_alldone[OF ended, where ad = True and st = None and en = None] wk by simp
  obtain m where en: "en = Some m" and m: "max_end_of ?js m"
    using walk_jobs_end[OF ended, where ad = True and st = None and en = None] wk ne
    by (auto simp: max_end_of_def split: option.splits)
  have st: "case s of None \<Rightarrow> \<forall>j\<in>set ?js. job_StartTime j = None | Some t \<Rightarrow> min_start_of ?js t"
    using walk_jobs_start[OF ended, where ad = True and st = None and en = None] wk
    by (auto simp: min_start_of_def split: option.splits)
  show "\<exists>m s b1 pre.
         max_end_of (build_Jobs b) m \<and>
         (case s of
            None \<Rightarrow> (\<forall>j\<in>set (build_Jobs b). job_StartTime j = None) \<and> b1 = b \<and> pre = []
          | Some t \<Rightarrow> min_start_of (build_Jobs b) t \<and> b1 = b\<lparr>build_StartTime := Some t\<rparr> \<and>
                      pre = [BuildStoreUpdate b1]) \<and>
         updateBuildTime e i w =
           sendStatus e (b1\<lparr>build_EndTime := Some m\<rparr>)
             (if \<forall>j\<in>set (build_Jobs b). job_Status j = ''passing'' then StateSuccess else StateError)
             (emit (BuildStoreFind i # pre @ [BuildStoreUpdate (b1\<lparr>build_EndTime := Some m\<rparr>)]) w)"
  proof (cases s)
    case None
    with st m show ?thesis
      apply (intro exI[of _ m] exI[of _ None] exI[of _ b] exI[of _ "[]"])
      using guard by (auto simp: updateBuildTime_def find Let_def wk ad en upd overall_state_def all_passing_iff)
  next
    case (Some t)
    with st m show ?thesis
      apply (intro exI[of _ m] exI[of _ "Some t"] exI[of _ "b\<lparr>build_StartTime := Some t\<rparr>"]
          exI[of _ "[BuildStoreUpdate (b\<lparr>build_StartTime := Some t\<rparr>)]"])
      using guard by (auto simp: updateBuildTime_def find Let_def wk ad en upd overall_state_def all_passing_iff)
  qed
qed

theorem updateBuildTime_terminal_witness:
  "updateBuildTime env_finished 7 world0 = (None, emit [BuildStoreFind 7] world0) \<and>
   updateBuildTime env_all_ended 7 world0 =
     sendStatus env_all_ended
       (example_build (Some 1) (Some 12)
          [example_job 5 ''passing'' (Some 2) (Some 9), example_job 6 ''failing'' (Some 1) (Some 12)])
       StateError
       (emit [BuildStoreFind 7,
              BuildStoreUpdate (example_build (Some 1) None
                [example_job 5 ''passing'' (Some 2) (Some 9), example_job 6 ''failing'' (Some 1) (Some 12)]),
              BuildStoreUpdate (example_build (Some 1) (Some 12)
                [example_job 5 ''passing'' (Some 2) (Some 9), example_job 6 ''failing'' (Some 1) (Some 12)])]
          world0)"
proof -
  let ?js = "[example_job 5 ''passing'' (Some 2) (Some 9), example_job 6 ''failing'' (Some 1) (Some 12)]"
  let ?b = "example_build None None ?js"
  let ?d = "example_build (Some 1) (Some 12) ?js"
  have d: "buildStore_Find env_finished (trace world0) 7 = Inr ?d \<and>
      build_StartTime ?d \<noteq> None \<and> build_EndTime ?d \<noteq> None"
    by (simp add: env_finished_def env0_def example_build_def)
  have j: "build_Jobs ?b = ?js" by (simp add: example_build_def)
  have mx: "max_end_of ?js 12" and mn: "min_start_of ?js 1"
    and st: "\<not> (\<forall>j\<in>set ?js. job_StartTime j = None)"
    by (simp_all add: example_job_def max_end_of_def min_start_of_def)
  have e: "(if \<forall>j\<in>set ?js. job_Status j = ''passing'' then StateSuccess else StateError)
      = StateError"
    by (simp add: example_job_def)
  have h: "buildStore_Find env_all_ended (trace world0) 7 = Inr ?b \<and>
    \<not> (build_StartTime ?b \<noteq> None \<and> build_EndTime ?b \<noteq> None) \<and>
    build_Jobs ?b \<noteq> [] \<and> (\<forall>j\<in>set (build_Jobs ?b). job_EndTime j \<noteq> None) \<and>
    (\<forall>h b'. buildStore_Update env_all_ended h b' = None)"
    by (simp add: env_all_ended_def env0_def example_build_def example_job_def)
  note t1 = updateBuildTime_terminal[of env_finished world0 7 ?d, THEN conjunct1, THEN mp, OF d]
  note t2 = updateBuildTime_terminal[of env_all_ended world0 7 ?b, THEN conjunct2, THEN mp, OF h]
  from t2[unfolded j e] obtain m s b1 pre where
    m: "max_end_of ?js m"
    and s: "case s of
              None \<Rightarrow> (\<forall>j\<in>set ?js. job_StartTime j = None) \<and> b1 = ?b \<and> pre = []
            | Some t \<Rightarrow> min_start_of ?js t \<and> b1 = ?b\<lparr>build_StartTime := Some t\<rparr> \<and>
                        pre = [BuildStoreUpdate b1]"
    and u: "updateBuildTime env_all_ended 7 world0 =
             sendStatus env_all_ended (b1\<lparr>build_EndTime := Some m\<rparr>) StateError
               (emit (BuildStoreFind 7 # pre @ [BuildStoreUpdate (b1\<lparr>build_EndTime := Some m\<rparr>)]) world0)"
    by blast
  have m12: "m = 12" using max_end_of_unique[OF m mx] .
  from s st obtain t where t: "s = Some t" "min_start_of ?js t"
    "b1 = ?b\<lparr>build_StartTime := Some t\<rparr>" "pre = [BuildStoreUpdate b1]"
    by (cases s) auto
  have t1': "t = 1" using min_start_of_unique[OF t(2) mn] .
  have b1: "b1 = example_build (Some 1) None ?js"
    "b1\<lparr>build_EndTime := Some 12\<rparr> = example_build (Some 1) (Some 12) ?js"
    by (simp_all add: t(3) t1' example_build_def)
  from u have "updateBuildTime env_all_ended 7 world0 =
     sendStatus env_all_ended (example_build (Some 1) (Some 12) ?js) StateError
       (emit [BuildStoreFind 7, BuildStoreUpdate (example_build (Some 1) None ?js),
              BuildStoreUpdate (example_build (Some 1) (Some 12) ?js)] world0)"
    by (simp add: m12 t(4) b1(1) example_build_def)
  with t1 show ?thesis by blast
qed

subsection \<open>C8: admitting a job twice\<close>

text \<open>
  Claim C8: \<open>Next(j)\<close> followed by \<open>Next(j)\<close> leaves exactly one entry with the id of \<open>j\<close>
  in the admission queue, because \<open>Next\<close> calls \<open>Stop\<close> with that id before it appends.

  The code does not do this when \<open>saveJob\<close> reports an error. With the build store down and
  an empty queue, the first \<open>Next\<close> of job 5 returns and leaves the one entry 5. The second
  \<open>Next\<close> calls \<open>Stop(5)\<close>, which removes the entry and then panics on line 92; \<open>Next\<close> does not
  reach its \<open>append\<close>, and the queue is left without an entry for job 5. When neither call
  panics the queue holds the id once (\<open>Next_twice_returns_one_entry\<close>).
\<close>

theorem Next_twice_save_fails:
  "queued_ids world0 = [] \<and>
   fst (Next env_db_down 0 world0) = Returns None \<and>
   queued_ids (snd (Next env_db_down 0 world0)) = [5] \<and>
   fst (Next env_db_down 0 (snd (Next env_db_down 0 world0))) = Panics \<and>
   count_list (queued_ids (snd (Next env_db_down 0 (snd (Next env_db_down 0 world0))))) 5 = 0"
proof -
  let ?w1 = "snd (Next env_db_down 0 world0)"
  have i: "job_ID (jobs world0 0) = 5" "queued_ids world0 = []"
    by (simp_all add: ex_defs queued_ids_def)
  have s1: "Stop env_db_down 5 world0 = (Returns (False, None), world0)"
    by (rule Stop_unknown_branch) (simp_all add: ex_defs)
  then have s1': "fst (Stop env_db_down (job_ID (jobs world0 0)) world0) = Returns (False, None)"
    by (simp add: i)
  have n1: "fst (Next env_db_down 0 world0) = Returns None"
    by (rule Next_Returns(1)[OF s1'])
  have q1: "queued ?w1 = [0]"
    using Next_Returns(2)[OF s1'] by (simp add: ex_defs)
  have i1: "job_ID (jobs ?w1 0) = 5" by (simp add: i)
  have ids1: "queued_ids ?w1 = [5]" by (simp add: queued_ids_def q1 i)
  have f: "find_in (jobs ?w1) 5 (queued ?w1) = Some 0" by (simp add: q1 i)
  have s2: "fst (Stop env_db_down (job_ID (jobs ?w1 0)) ?w1) = Panics"
    by (simp add: i Stop_queued_branch[OF f] saveJob_env_db_down)
  have n2: "fst (Next env_db_down 0 ?w1) = Panics"
    by (simp add: Next_Panics[OF s2])
  have "queued_ids (snd (Next env_db_down 0 ?w1)) = []"
    using s2 by (simp add: Next_queued_ids ids1 i)
  with i n1 ids1 n2 show ?thesis by simp
qed

subsection \<open>C9: the running counter of a worker\<close>



subsection \<open>C10: Stop of a pending job whose worker is not found\<close>

text \<open>
  Claim C10: when \<open>Stop\<close> is called for a job that is pending and \<open>getWorker\<close> fails for
  the recorded worker id, \<open>Stop\<close> persists the job as \<open>failing\<close> with an end time and
  returns \<open>(false, err)\<close> with the error of \<open>getWorker\<close>; the entry stays in the pending
  registry. \<open>Stop\<close> changes the pending registry only when \<open>StopJob\<close> returns an error.
\<close>

theorem Stop_pending_unresolved:
  "(i \<notin> set (queued_ids w) \<and> pending w i = Some (r, pb) \<and>
    fst (getWorker e (pb_WorkerId pb) w) = Inl er \<longrightarrow>
      fst (Stop e i w) = Returns (False, Some er) \<and>
      pending (snd (Stop e i w)) = pending w \<and>
      job_Status (jobs (snd (Stop e i w)) r) = ''failing'' \<and>
      job_EndTime (jobs (snd (Stop e i w)) r) = Some (lib_TimeNow e (trace w @ [WorkersList])) \<and>
      (\<exists>a evs. trace (snd (Stop e i w)) =
         trace w @ [WorkersList, JobStoreUpdate (jobs (snd (Stop e i w)) r) a] @ evs \<and>
         filter worker_event evs = []))
   \<and> (pending (snd (Stop e i w)) \<noteq> pending w \<longrightarrow>
        (\<exists>r pb x. pending w i = Some (r, pb) \<and> fst (getWorker e (pb_WorkerId pb) w) = Inr x \<and>
           snd (worker_StopJob e (trace w @ [WorkersList]) x pb) \<noteq> None))"
proof (rule conjI; rule impI)
  assume "i \<notin> set (queued_ids w) \<and> pending w i = Some (r, pb) \<and>
    fst (getWorker e (pb_WorkerId pb) w) = Inl er"
  then have a: "i \<notin> set (queued_ids w)" "pending w i = Some (r, pb)"
    "fst (getWorker e (pb_WorkerId pb) w) = Inl er" by simp_all
  note st = Stop_unresolved_branch[OF not_queued[OF a(1)] a(2) a(3)]
  let ?w = "mark_failing e r (emit [WorkersList] w)"
  from saveJob_events[of e r ?w]
  have "\<exists>a evs. trace (snd (Stop e i w)) =
         trace w @ [WorkersList, JobStoreUpdate (jobs (snd (Stop e i w)) r) a] @ evs \<and>
         filter worker_event evs = []"
    by (auto simp: st)
  then show "fst (Stop e i w) = Returns (False, Some er) \<and>
      pending (snd (Stop e i w)) = pending w \<and>
      job_Status (jobs (snd (Stop e i w)) r) = ''failing'' \<and>
      job_EndTime (jobs (snd (Stop e i w)) r) = Some (lib_TimeNow e (trace w @ [WorkersList])) \<and>
      (\<exists>a evs. trace (snd (Stop e i w)) =
         trace w @ [WorkersList, JobStoreUpdate (jobs (snd (Stop e i w)) r) a] @ evs \<and>
         filter worker_event evs = [])"
    by (simp add: st)
next
  assume ch: "pending (snd (Stop e i w)) \<noteq> pending w"
  show "\<exists>r pb x. pending w i = Some (r, pb) \<and> fst (getWorker e (pb_WorkerId pb) w) = Inr x \<and>
           snd (worker_StopJob e (trace w @ [WorkersList]) x pb) \<noteq> None"
  proof (cases "find_in (jobs w) i (queued w)")
    case (Some r)
    with ch show ?thesis by (simp add: Stop_queued_branch)
  next
    case None
    show ?thesis
    proof (cases "pending w i")
      case n: None
      with None ch show ?thesis by (simp add: Stop_unknown_branch)
    next
      case (Some p)
      obtain r pb where p: "p = (r, pb)" by (cases p)
      show ?thesis
      proof (cases "fst (getWorker e (pb_WorkerId pb) w)")
        case (Inl er)
        with None Some p ch show ?thesis by (simp add: Stop_unresolved_branch)
      next
        case (Inr x)
        with None Some p ch show ?thesis
          by (auto simp: Stop_resolved_branch split: if_splits)
      qed
    qed
  qed
qed

theorem Stop_pending_unresolved_witness:
  "7 \<notin> set (queued_ids world_pending) \<and>
   pending world_pending 7 = Some (2, example_pb) \<and>
   fst (getWorker env_no_workers (pb_WorkerId example_pb) world_pending) = Inl WorkerNotFound \<and>
   fst (Stop env_no_workers 7 world_pending) = Returns (False, Some WorkerNotFound) \<and>
   pending (snd (Stop env_no_workers 7 world_pending)) 7 = Some (2, example_pb) \<and>
   job_Status (jobs (snd (Stop env_no_workers 7 world_pending)) 2) = ''failing'' \<and>
   job_EndTime (jobs (snd (Stop env_no_workers 7 world_pending)) 2) = Some 1"
proof -
  have h: "7 \<notin> set (queued_ids world_pending) \<and>
    pending world_pending 7 = Some (2, example_pb) \<and>
    fst (getWorker env_no_workers (pb_WorkerId example_pb) world_pending) = Inl WorkerNotFound"
    by (simp add: ex_defs world_pending_def env_no_workers_def example_pb_def queued_ids_def getWorker_def Let_def emit_def descriptor_def)
  have k: "lib_TimeNow env_no_workers (trace world_pending @ [WorkersList]) = 1"
    by (simp add: ex_defs world_pending_def env_no_workers_def)
  from Stop_pending_unresolved[of 7 world_pending 2 example_pb env_no_workers WorkerNotFound] h k
  show ?thesis by simp
qed

end
